theory Spec2Isabelle
  imports Complex_Main "HOL-Library.Word"
begin

section \<open>WASM build monitor (scripts/wasm-build-monitor.py)\<close>

text \<open>
  A shallow embedding of the class \<open>BuildMonitor\<close> and of the event handler
  \<open>WASMEventHandler\<close>. Everything outside the script (the file system, the clock,
  the child processes, \<open>hashlib\<close>, \<open>pathlib\<close>, the string methods that depend on
  Unicode tables, floating-point arithmetic) is read from a record \<open>env\<close> that the
  functions take as an argument; everything the script mutates (the fields of \<open>self\<close>,
  \<open>os.environ['PATH']\<close>, the two files it writes, the log) is a field of the record
  \<open>monitor\<close> that is passed in and returned.

  Python exceptions are values of the type \<open>exn\<close>; a function that can raise returns
  \<open>exn + 'a\<close> with \<open>Inl\<close> for the raised exception. Only exceptions deriving from
  \<open>Exception\<close> are modelled: an asynchronous \<open>KeyboardInterrupt\<close> or \<open>SystemExit\<close>
  is outside the model. A Python float is a \<open>real\<close>; comparisons of floats are those
  of the reals, and every arithmetic operation on floats is taken from \<open>env\<close>, since it
  rounds. A Python \<open>str\<close> is the list of the bytes of its UTF-8 encoding, on which
  equality, concatenation, the search for an ASCII substring or suffix and the split at
  a line feed agree with Python.
\<close>

subsection \<open>Exceptions\<close>

datatype exn_class =
    FileNotFoundError | PermissionError | IsADirectoryError | OSError
  | JSONDecodeError | KeyError | IndexError | RuntimeError | RecursionError
  | AttributeError | TypeError

datatype exn = Exn exn_class string

fun exn_class_of :: "exn \<Rightarrow> exn_class" where
  "exn_class_of (Exn c m) = c"

text \<open>\<open>str(e)\<close>: the message of the exception.\<close>

fun str_exn :: "exn \<Rightarrow> string" where
  "str_exn (Exn c m) = m"

text \<open>The test of a clause \<open>except FileNotFoundError\<close> (the class has no subclass).\<close>

definition is_FileNotFoundError :: "exn \<Rightarrow> bool" where
  "is_FileNotFoundError x = (exn_class_of x = FileNotFoundError)"

text \<open>\<open>d[k]\<close> on a dict: \<open>KeyError\<close> when the key is missing; \<open>str(KeyError(k))\<close> is
  the \<open>repr\<close> of the key.\<close>

definition subscript :: "(string \<rightharpoonup> 'v) \<Rightarrow> string \<Rightarrow> exn + 'v" where
  "subscript d k =
     (case d k of None \<Rightarrow> Inl (Exn KeyError ([CHR 0x27] @ k @ [CHR 0x27])) | Some v \<Rightarrow> Inr v)"

subsection \<open>Data model\<close>

type_synonym byte = "8 word"

text \<open>
  A value that \<open>json.load\<close> returns: \<open>None\<close>, a \<open>bool\<close>, an \<open>int\<close>, a \<open>float\<close>, a
  \<open>str\<close>, a \<open>list\<close> or a \<open>dict\<close> with string keys. The attribute \<open>self.file_hashes\<close>
  holds such a value: \<open>load_cache\<close> assigns whatever the cache file contains.
\<close>

datatype json =
    JNull | JBool bool | JInt int | JFloat real | JStr string
  | JArr "json list" | JObj "string \<Rightarrow> json option"

text \<open>\<open>type(v).__name__\<close>, as it appears in the messages of the interpreter.\<close>

fun type_name :: "json \<Rightarrow> string" where
  "type_name JNull = ''NoneType''"
| "type_name (JBool b) = ''bool''"
| "type_name (JInt i) = ''int''"
| "type_name (JFloat r) = ''float''"
| "type_name (JStr s) = ''str''"
| "type_name (JArr xs) = ''list''"
| "type_name (JObj d) = ''dict''"

text \<open>Whether \<open>len(v)\<close> returns; it raises \<open>TypeError\<close> otherwise.\<close>

fun has_len :: "json \<Rightarrow> bool" where
  "has_len (JStr s) = True"
| "has_len (JArr xs) = True"
| "has_len (JObj d) = True"
| "has_len v = False"

record build_stats =
  start_time :: real
  end_time :: real
  success :: bool
  mode :: string
  files_changed :: "string list"
  output_size_js :: int
  output_size_wasm :: int
  error_message :: string
  warnings :: "string list option"

text \<open>The dict \<open>self.stats\<close>.\<close>

record stats =
  total_builds :: int
  successful_builds :: int
  failed_builds :: int
  total_build_time :: real
  last_build :: "string option"

text \<open>
  The configuration is the parsed JSON document, used as it is. A key that the script
  subscripts (\<open>config['paths']\<close>, \<open>config['build_modes']\<close>, \<open>config['watch']\<close>) is an
  optional field, \<open>None\<close> when the document lacks it; documents whose values have other
  JSON types than the ones the script expects are outside the model.
\<close>

record mode_config =
  optimization :: "string option"
  flags :: "string list option"

record watch_config =
  enabled :: "bool option"
  debounce_ms :: "real option"

record config =
  paths :: "(string \<rightharpoonup> string) option"
  build_modes :: "(string \<rightharpoonup> mode_config) option"
  common_flags :: "string list option"
  watch :: "watch_config option"

datatype level = INFO | WARNING | ERROR

text \<open>The records handed to \<open>logger\<close>, by message and interpolated values (the ANSI
  colours and the number formats of the f-strings are left out; \<open>LoadedCache v\<close> is the
  message that interpolates \<open>len(v)\<close>).\<close>

datatype log_msg =
    ConfigNotFound string
  | LoadedCache json
  | LoadCacheFailed string
  | BuildInProgress
  | StartingBuild string
  | EmscriptenFound string
  | SourcingEnvironment
  | EmscriptenNotFound
  | BuildCommand string
  | BuildSuccessful
  | OutputSizes int int
  | BuildFailed
  | Stderr string
  | CompletedWithWarnings nat
  | BuildError string
  | StatsLine int int real real
  | SaveCacheFailed string
  | SaveHistoryFailed string
  | ChangesDetected nat

text \<open>What a file that the script writes holds afterwards: \<open>open(_, 'w')\<close> truncates
  the file before \<open>json.dump\<close> writes, so a failing dump leaves a truncated file.\<close>

datatype 'a written = Unwritten | Dumped 'a | Truncated

record monitor =
  config_file :: string
  config :: config
  file_hashes :: json
  build_history :: "build_stats list"
  is_building :: bool
  stats :: stats
  environ_PATH :: "string option"
  cache_json :: "json written"
  history_json :: "build_stats list written"
  log :: "(level \<times> log_msg) list"

text \<open>The result of \<open>subprocess.run(..., capture_output=True, text=True)\<close>.\<close>

record completed_process =
  returncode :: int
  stdout :: string
  stderr :: string

datatype write_result = WriteOk | OpenFails exn | DumpFails exn

text \<open>
  The world outside the script, as one call of a method sees it:
  \<^item> \<open>md5\<close> is \<open>hashlib.md5\<close> on the whole input, its 16 digest bytes read as one
    big-endian number; \<open>path_str d ns\<close> is \<open>str(Path(d) / n1 / ... / nk)\<close>;
  \<^item> \<open>str_split\<close> is \<open>str.split()\<close> (at Unicode white space), \<open>str_lower\<close> is
    \<open>str.lower()\<close>; \<open>float_add\<close>, \<open>float_sub\<close>, \<open>float_mul\<close> and \<open>float_div\<close> are
    \<open>+\<close>, \<open>-\<close>, \<open>*\<close> and \<open>/\<close> on floats;
  \<^item> \<open>open_rb p\<close> is \<open>open(p, "rb")\<close> together with the bytes that reading to the end
    of the file gives; \<open>read_json_config\<close> and \<open>read_json_cache\<close> are \<open>open(p, 'r')\<close>
    followed by \<open>json.load\<close>;
  \<^item> \<open>path_exists\<close> is \<open>Path.exists\<close>, \<open>st_size\<close> is \<open>Path.stat().st_size\<close> of an
    existing file, \<open>mkdir\<close> is \<open>Path.mkdir(parents=True, exist_ok=True)\<close>;
  \<^item> \<open>run_emcc_version\<close> is \<open>subprocess.run(['emcc', '--version'])\<close> under a given value
    of \<open>PATH\<close>; \<open>run_shell cmd cwd\<close> is \<open>subprocess.run(cmd, shell=True, cwd=cwd)\<close>;
  \<^item> \<open>write_json p\<close> is the outcome of opening \<open>p\<close> for writing and dumping JSON to it;
  \<^item> \<open>clock_start\<close> and \<open>clock_end\<close> are the two readings of \<open>time.time()\<close> in
    \<open>build\<close>, \<open>now_isoformat\<close> is \<open>datetime.now().isoformat()\<close>;
  \<^item> \<open>recursion_limit\<close> is the number of nested calls the interpreter still allows and
    \<open>recursion_error_message\<close> the message of the \<open>RecursionError\<close> it raises beyond.
\<close>

record env =
  md5 :: "byte list \<Rightarrow> 128 word"
  path_str :: "string \<Rightarrow> string list \<Rightarrow> string"
  str_split :: "string \<Rightarrow> string list"
  str_lower :: "string \<Rightarrow> string"
  float_add :: "real \<Rightarrow> real \<Rightarrow> real"
  float_sub :: "real \<Rightarrow> real \<Rightarrow> real"
  float_mul :: "real \<Rightarrow> real \<Rightarrow> real"
  float_div :: "real \<Rightarrow> real \<Rightarrow> real"
  open_rb :: "string \<Rightarrow> exn + byte list"
  read_json_config :: "string \<Rightarrow> exn + config"
  read_json_cache :: "string \<Rightarrow> exn + json"
  path_exists :: "string \<Rightarrow> bool"
  st_size :: "string \<Rightarrow> int"
  mkdir :: "string \<Rightarrow> exn option"
  run_emcc_version :: "string option \<Rightarrow> exn + completed_process"
  run_shell :: "string \<Rightarrow> string \<Rightarrow> exn + completed_process"
  write_json :: "string \<Rightarrow> write_result"
  clock_start :: real
  clock_end :: real
  now_isoformat :: string
  recursion_limit :: nat
  recursion_error_message :: string

definition logger :: "level \<Rightarrow> log_msg \<Rightarrow> monitor \<Rightarrow> monitor" where
  "logger l m s = s\<lparr>log := log s @ [(l, m)]\<rparr>"

text \<open>The property \<open>BuildStats.duration\<close>.\<close>

definition duration :: "env \<Rightarrow> build_stats \<Rightarrow> real" where
  "duration e b = float_sub e (end_time b) (start_time b)"

subsection \<open>Content hasher\<close>

text \<open>
  \<open>iter(lambda: f.read(4096), b"")\<close>: the chunks of at most 4096 bytes that successive
  reads return, up to the first empty one.
\<close>

function read_chunks :: "byte list \<Rightarrow> byte list list" where
  "read_chunks bs =
     (if take 4096 bs = [] then [] else take 4096 bs # read_chunks (drop 4096 bs))"
  by pat_completeness auto
termination
  by (relation "measure length") auto

declare read_chunks.simps [simp del]

text \<open>An MD5 object is the bytes fed to it so far; \<open>update\<close> appends.\<close>

definition hash_md5_update :: "byte list \<Rightarrow> byte list \<Rightarrow> byte list" where
  "hash_md5_update h chunk = h @ chunk"

definition hex_digit :: "nat \<Rightarrow> char" where
  "hex_digit n = ''0123456789abcdef'' ! (n mod 16)"

text \<open>\<open>hexdigest()\<close>: the 32 lower-case hexadecimal digits of the 16-byte digest.\<close>

definition hexdigest :: "128 word \<Rightarrow> string" where
  "hexdigest w = map (\<lambda>i. hex_digit (unat (drop_bit (4 * i) w))) (rev [0..<32])"

definition calculate_file_hash :: "env \<Rightarrow> string \<Rightarrow> exn + string" where
  "calculate_file_hash e filepath =
     (case open_rb e filepath of
        Inr bs \<Rightarrow> Inr (hexdigest (md5 e (foldl hash_md5_update [] (read_chunks bs))))
      | Inl x \<Rightarrow> if is_FileNotFoundError x then Inr [] else Inl x)"

subsection \<open>Change cache\<close>

text \<open>\<open>dict.get(k, default)\<close>.\<close>

definition dict_get :: "(string \<rightharpoonup> 'v) \<Rightarrow> string \<Rightarrow> 'v \<Rightarrow> 'v" where
  "dict_get d k dflt = (case d k of None \<Rightarrow> dflt | Some v \<Rightarrow> v)"

text \<open>
  \<open>has_file_changed\<close>: the digest is computed first; \<open>self.file_hashes.get\<close> then raises
  \<open>AttributeError\<close> when the cache is not a dict. A stored value that is not a string
  differs from every digest.
\<close>

text \<open>The \<open>AttributeError\<close> of \<open>v.get\<close> for a value \<open>v\<close> that is not a dict.\<close>

definition no_attribute_get :: "json \<Rightarrow> exn" where
  "no_attribute_get v =
     Exn AttributeError
       ([CHR 0x27] @ type_name v @ [CHR 0x27] @ '' object has no attribute ''
        @ [CHR 0x27] @ ''get'' @ [CHR 0x27])"

definition has_file_changed :: "env \<Rightarrow> string \<Rightarrow> monitor \<Rightarrow> (exn + bool) \<times> monitor" where
  "has_file_changed e filepath s =
     (case calculate_file_hash e filepath of
        Inl x \<Rightarrow> (Inl x, s)
      | Inr current_hash \<Rightarrow>
          (case file_hashes s of
             JObj d \<Rightarrow>
               (let old_hash = dict_get d filepath (JStr [])
                in if JStr current_hash \<noteq> old_hash
                   then (Inr True, s\<lparr>file_hashes := JObj (d(filepath \<mapsto> JStr current_hash))\<rparr>)
                   else (Inr False, s))
           | _ \<Rightarrow> (Inl (no_attribute_get (file_hashes s)), s)))"

subsection \<open>Configuration and start-up\<close>

definition get_default_config :: config where
  "get_default_config =
     \<lparr>paths = Some [''workspace'' \<mapsto> ''/workspace'', ''wasm_dir'' \<mapsto> ''wasm'',
                     ''public_dir'' \<mapsto> ''public'', ''cache_dir'' \<mapsto> ''.build-cache'',
                     ''logs_dir'' \<mapsto> ''logs''],
      build_modes = Some [''release'' \<mapsto>
                     \<lparr>optimization = Some ''-O3'', flags = Some [''-s MALLOC=emmalloc'']\<rparr>],
      common_flags = None,
      watch = Some \<lparr>enabled = Some True, debounce_ms = Some 1000\<rparr>\<rparr>"

text \<open>\<open>load_config\<close> returns the configuration, or raises, and the records it logged.\<close>

definition load_config :: "env \<Rightarrow> string \<Rightarrow> (exn + config) \<times> (level \<times> log_msg) list" where
  "load_config e cfile =
     (case read_json_config e cfile of
        Inr c \<Rightarrow> (Inr c, [])
      | Inl x \<Rightarrow>
          if is_FileNotFoundError x
          then (Inr get_default_config, [(WARNING, ConfigNotFound cfile)])
          else (Inl x, []))"

text \<open>\<open>d[k]\<close> for a top-level key \<open>k\<close> of the configuration.\<close>

definition top_key :: "string \<Rightarrow> 'v option \<Rightarrow> exn + 'v" where
  "top_key k v =
     (case v of None \<Rightarrow> Inl (Exn KeyError ([CHR 0x27] @ k @ [CHR 0x27])) | Some x \<Rightarrow> Inr x)"

text \<open>\<open>self.config['paths'][k]\<close>.\<close>

definition config_path :: "monitor \<Rightarrow> string \<Rightarrow> exn + string" where
  "config_path s k =
     (case top_key ''paths'' (paths (config s)) of
        Inl x \<Rightarrow> Inl x
      | Inr p \<Rightarrow> subscript p k)"

fun mkdirs :: "env \<Rightarrow> string list \<Rightarrow> exn + unit" where
  "mkdirs e [] = Inr ()"
| "mkdirs e (d # ds) = (case mkdir e d of Some x \<Rightarrow> Inl x | None \<Rightarrow> mkdirs e ds)"

definition setup_directories :: "env \<Rightarrow> monitor \<Rightarrow> exn + unit" where
  "setup_directories e s =
     (case config_path s ''public_dir'' of Inl x \<Rightarrow> Inl x | Inr d1 \<Rightarrow>
     (case config_path s ''cache_dir'' of Inl x \<Rightarrow> Inl x | Inr d2 \<Rightarrow>
     (case config_path s ''logs_dir'' of Inl x \<Rightarrow> Inl x | Inr d3 \<Rightarrow>
        mkdirs e [d1, d2, d3])))"

text \<open>
  \<open>load_cache\<close>: the value read from the cache file is assigned to \<open>self.file_hashes\<close>
  before \<open>len\<close> is applied to it for the log; the \<open>TypeError\<close> of \<open>len\<close> is caught like
  the exceptions of \<open>open\<close> and \<open>json.load\<close>, and the assignment stays.
\<close>

definition load_cache :: "env \<Rightarrow> monitor \<Rightarrow> (exn + unit) \<times> monitor" where
  "load_cache e s =
     (case config_path s ''cache_dir'' of Inl x \<Rightarrow> (Inl x, s) | Inr d \<Rightarrow>
        (let cache_file = path_str e d [''file_hashes.json'']
         in if path_exists e cache_file
            then (case read_json_cache e cache_file of
                    Inr v \<Rightarrow>
                      (let s1 = s\<lparr>file_hashes := v\<rparr>
                       in if has_len v then (Inr (), logger INFO (LoadedCache v) s1)
                          else (Inr (),
                                logger ERROR
                                  (LoadCacheFailed
                                     (''object of type '' @ [CHR 0x27] @ type_name v
                                      @ [CHR 0x27] @ '' has no len()'')) s1))
                  | Inl x \<Rightarrow> (Inr (), logger ERROR (LoadCacheFailed (str_exn x)) s))
            else (Inr (), s)))"

text \<open>\<open>BuildMonitor.__init__\<close>; \<open>path_var\<close> is the value of \<open>os.environ['PATH']\<close> of
  the process (none when the variable is unset).\<close>

definition BuildMonitor_init :: "env \<Rightarrow> string \<Rightarrow> string option \<Rightarrow> exn + monitor" where
  "BuildMonitor_init e cfile path_var =
     (case load_config e cfile of
        (Inl x, l) \<Rightarrow> Inl x
      | (Inr c, l) \<Rightarrow>
          (let s = \<lparr>config_file = cfile, config = c, file_hashes = JObj Map.empty,
                    build_history = [], is_building = False,
                    stats = \<lparr>total_builds = 0, successful_builds = 0, failed_builds = 0,
                             total_build_time = 0, last_build = None\<rparr>,
                    environ_PATH = path_var, cache_json = Unwritten,
                    history_json = Unwritten, log = l\<rparr>
           in case setup_directories e s of
                Inl x \<Rightarrow> Inl x
              | Inr u \<Rightarrow> (case load_cache e s of (Inl x, s') \<Rightarrow> Inl x | (Inr u', s') \<Rightarrow> Inr s')))"

subsection \<open>Strings\<close>

text \<open>\<open>s.split()[0]\<close>.\<close>

definition first_word :: "env \<Rightarrow> string \<Rightarrow> exn + string" where
  "first_word e s =
     (case str_split e s of
        [] \<Rightarrow> Inl (Exn IndexError ''list index out of range'')
      | w # ws \<Rightarrow> Inr w)"

text \<open>\<open>' '.join(xs)\<close>.\<close>

fun join_space :: "string list \<Rightarrow> string" where
  "join_space [] = []"
| "join_space [x] = x"
| "join_space (x # y # ys) = x @ '' '' @ join_space (y # ys)"

text \<open>\<open>s.split(sep)\<close> for a one-character separator.\<close>

fun split_char :: "char \<Rightarrow> string \<Rightarrow> string list" where
  "split_char sep [] = [[]]"
| "split_char sep (c # cs) =
     (if c = sep then [] # split_char sep cs
      else (case split_char sep cs of [] \<Rightarrow> [[c]] | w # ws \<Rightarrow> (c # w) # ws))"

text \<open>\<open>sub in s\<close>.\<close>

fun contains :: "string \<Rightarrow> string \<Rightarrow> bool" where
  "contains sub [] = (sub = [])"
| "contains sub (c # cs) = (take (length sub) (c # cs) = sub \<or> contains sub cs)"

text \<open>\<open>s.endswith(suffixes)\<close> for a tuple of suffixes.\<close>

definition endswith :: "string \<Rightarrow> string list \<Rightarrow> bool" where
  "endswith s sufs =
     list_ex (\<lambda>suf. length suf \<le> length s \<and> drop (length s - length suf) s = suf) sufs"

subsection \<open>Build orchestrator\<close>

text \<open>
  The \<open>try\<close> block of \<open>check_emscripten\<close>: the version probe under the current \<open>PATH\<close>.
  Only \<open>FileNotFoundError\<close> is caught; the probe's first word goes to the log.
\<close>

definition probe_emcc :: "env \<Rightarrow> monitor \<Rightarrow> (exn + bool) \<times> monitor" where
  "probe_emcc e s =
     (case run_emcc_version e (environ_PATH s) of
        Inl x \<Rightarrow> if is_FileNotFoundError x then (Inr False, s) else (Inl x, s)
      | Inr result \<Rightarrow>
          if returncode result = 0
          then (case first_word e (stdout result) of
                  Inl x \<Rightarrow> (Inl x, s)
                | Inr w \<Rightarrow> (Inr True, logger INFO (EmscriptenFound w) s))
          else (Inr False, s))"

text \<open>
  \<open>check_emscripten\<close> calls itself after prepending the emsdk directory to \<open>PATH\<close>;
  the first argument counts the nested calls the interpreter still allows, and the
  call that exceeds them raises \<open>RecursionError\<close>.
\<close>

fun check_emscripten :: "nat \<Rightarrow> env \<Rightarrow> monitor \<Rightarrow> (exn + bool) \<times> monitor" where
  "check_emscripten 0 e s =
     (Inl (Exn RecursionError (recursion_error_message e)), s)"
| "check_emscripten (Suc depth) e s =
     (case probe_emcc e s of
        (Inl x, s1) \<Rightarrow> (Inl x, s1)
      | (Inr True, s1) \<Rightarrow> (Inr True, s1)
      | (Inr False, s1) \<Rightarrow>
          (case config_path s1 ''workspace'' of
             Inl x \<Rightarrow> (Inl x, s1)
           | Inr ws \<Rightarrow>
               if path_exists e (path_str e ws [''emsdk'', ''emsdk_env.sh''])
               then (let s2 = logger INFO SourcingEnvironment s1
                     in case environ_PATH s2 of
                          None \<Rightarrow> (Inl (Exn KeyError ([CHR 0x27] @ ''PATH'' @ [CHR 0x27])), s2)
                        | Some p \<Rightarrow>
                            check_emscripten depth e
                              (s2\<lparr>environ_PATH :=
                                    Some (''/workspace/emsdk/upstream/emscripten:'' @ p)\<rparr>))
               else (Inr False, logger ERROR EmscriptenNotFound s1)))"

definition prepare_build_command :: "env \<Rightarrow> string \<Rightarrow> monitor \<Rightarrow> exn + string" where
  "prepare_build_command e md s =
     (case top_key ''build_modes'' (build_modes (config s)) of Inl x \<Rightarrow> Inl x | Inr modes \<Rightarrow>
     (let mode_config = dict_get modes md \<lparr>optimization = None, flags = None\<rparr>
      in case config_path s ''wasm_dir'' of Inl x \<Rightarrow> Inl x | Inr wasm_dir \<Rightarrow>
     (let main_file = path_str e wasm_dir [''game_engine.cpp''];
          sources = (if path_exists e main_file then [main_file] else []);
          entity_file = path_str e wasm_dir [''src'', ''entity.cpp''];
          sources = sources @ (if path_exists e entity_file then [entity_file] else []);
          includes = ''-I'' @ wasm_dir @ ''/include'';
          fl = join_space (case common_flags (config s) of None \<Rightarrow> [] | Some fs \<Rightarrow> fs);
          fl = fl @ '' '' @ (case optimization mode_config of None \<Rightarrow> ''-O3'' | Some opt \<Rightarrow> opt);
          fl = fl @ '' '' @ join_space (case flags mode_config of None \<Rightarrow> [] | Some fs \<Rightarrow> fs)
      in case config_path s ''public_dir'' of Inl x \<Rightarrow> Inl x | Inr public_dir \<Rightarrow>
           Inr (''emcc '' @ join_space sources @ '' '' @ includes @ '' '' @ fl @ '' -o ''
                @ public_dir @ ''/game_engine.js''))))"

text \<open>The lines of the captured standard output, split at the line feeds, whose
  lower-case form contains \<open>warning\<close>.\<close>

definition warning_lines :: "env \<Rightarrow> string \<Rightarrow> string list" where
  "warning_lines e out =
     filter (\<lambda>line. contains ''warning'' (str_lower e line)) (split_char CHR 0x0A out)"

text \<open>
  The part of the \<open>try\<close> block after the child process has returned: the result is
  classified by its exit code, the sizes of the two artefacts are read on success, and
  the warnings are parsed. An exception leaves the record as far as it was filled.
\<close>

definition classify_result ::
  "env \<Rightarrow> completed_process \<Rightarrow> build_stats \<Rightarrow> monitor \<Rightarrow> exn option \<times> build_stats \<times> monitor" where
  "classify_result e result b s =
     (if returncode result = 0
      then (let b1 = b\<lparr>success := True\<rparr>;
                s1 = logger INFO BuildSuccessful s
            in case config_path s1 ''public_dir'' of
                 Inl x \<Rightarrow> (Some x, b1, s1)
               | Inr public_dir \<Rightarrow>
                   (let js_file = path_str e public_dir [''game_engine.js''];
                        wasm_file = path_str e public_dir [''game_engine.wasm''];
                        b2 = (if path_exists e js_file
                              then b1\<lparr>output_size_js := st_size e js_file\<rparr> else b1);
                        b3 = (if path_exists e wasm_file
                              then b2\<lparr>output_size_wasm := st_size e wasm_file\<rparr> else b2)
                    in (None, b3,
                        logger INFO (OutputSizes (output_size_js b3) (output_size_wasm b3)) s1)))
      else (None, b\<lparr>success := False, error_message := stderr result\<rparr>,
            logger ERROR (Stderr (stderr result)) (logger ERROR BuildFailed s)))"

definition parse_warnings ::
  "env \<Rightarrow> completed_process \<Rightarrow> build_stats \<Rightarrow> monitor \<Rightarrow> build_stats \<times> monitor" where
  "parse_warnings e result b s =
     (if stdout result \<noteq> []
      then (let ws = warning_lines e (stdout result)
            in if ws \<noteq> []
               then (b\<lparr>warnings := Some ws\<rparr>, logger WARNING (CompletedWithWarnings (length ws)) s)
               else (b, s))
      else (b, s))"

text \<open>The first part of the \<open>try\<close> block of \<open>build\<close>: the toolchain check, the
  command line and the child process, whose result it returns.\<close>

definition run_compiler :: "env \<Rightarrow> string \<Rightarrow> monitor \<Rightarrow> (exn + completed_process) \<times> monitor" where
  "run_compiler e md s =
     (case check_emscripten (recursion_limit e) e (logger INFO (StartingBuild md) s) of
        (Inl x, s1) \<Rightarrow> (Inl x, s1)
      | (Inr False, s1) \<Rightarrow> (Inl (Exn RuntimeError ''Emscripten not available''), s1)
      | (Inr True, s1) \<Rightarrow>
          (case prepare_build_command e md s1 of
             Inl x \<Rightarrow> (Inl x, s1)
           | Inr build_cmd \<Rightarrow>
               (let s2 = logger INFO (BuildCommand build_cmd) s1
                in case config_path s2 ''workspace'' of
                     Inl x \<Rightarrow> (Inl x, s2)
                   | Inr ws \<Rightarrow>
                       (case run_shell e build_cmd ws of
                          Inl x \<Rightarrow> (Inl x, s2)
                        | Inr result \<Rightarrow> (Inr result, s2)))))"

text \<open>The \<open>try\<close> block of \<open>build\<close>: the exception it raised, if any, the record and the
  state as they are when the block is left.\<close>

definition build_try ::
  "env \<Rightarrow> string \<Rightarrow> build_stats \<Rightarrow> monitor \<Rightarrow> exn option \<times> build_stats \<times> monitor" where
  "build_try e md b s =
     (case run_compiler e md s of
        (Inl x, s1) \<Rightarrow> (Some x, b, s1)
      | (Inr result, s1) \<Rightarrow>
          (case classify_result e result b s1 of
             (Some x, b1, s2) \<Rightarrow> (Some x, b1, s2)
           | (None, b1, s2) \<Rightarrow>
               (case parse_warnings e result b1 s2 of (b2, s3) \<Rightarrow> (None, b2, s3))))"

subsection \<open>Statistics aggregator\<close>

definition update_stats :: "env \<Rightarrow> build_stats \<Rightarrow> monitor \<Rightarrow> monitor" where
  "update_stats e b s =
     (let st = stats s;
          st1 = st\<lparr>total_builds := total_builds st + 1\<rparr>;
          st2 = (if success b then st1\<lparr>successful_builds := successful_builds st1 + 1\<rparr>
                 else st1\<lparr>failed_builds := failed_builds st1 + 1\<rparr>);
          st3 = st2\<lparr>total_build_time := float_add e (total_build_time st2) (duration e b)\<rparr>;
          st4 = st3\<lparr>last_build := Some (now_isoformat e)\<rparr>;
          s1 = s\<lparr>stats := st4\<rparr>
      in if total_builds st4 > 0
         then logger INFO
                (StatsLine (successful_builds st4) (total_builds st4)
                   (float_mul e (float_div e (real_of_int (successful_builds st4))
                                             (real_of_int (total_builds st4))) 100)
                   (float_div e (total_build_time st4) (real_of_int (total_builds st4)))) s1
         else s1)"

subsection \<open>History and cache persister\<close>

text \<open>\<open>append\<close> on a \<open>deque(maxlen=100)\<close>: the oldest entry leaves a full deque.\<close>

definition deque_append :: "'a list \<Rightarrow> 'a \<Rightarrow> 'a list" where
  "deque_append xs x = (if length xs \<ge> 100 then tl xs @ [x] else xs @ [x])"

definition save_cache :: "env \<Rightarrow> monitor \<Rightarrow> (exn + unit) \<times> monitor" where
  "save_cache e s =
     (case config_path s ''cache_dir'' of
        Inl x \<Rightarrow> (Inl x, s)
      | Inr d \<Rightarrow>
          (case write_json e (path_str e d [''file_hashes.json'']) of
             WriteOk \<Rightarrow> (Inr (), s\<lparr>cache_json := Dumped (file_hashes s)\<rparr>)
           | OpenFails x \<Rightarrow> (Inr (), logger ERROR (SaveCacheFailed (str_exn x)) s)
           | DumpFails x \<Rightarrow>
               (Inr (), logger ERROR (SaveCacheFailed (str_exn x)) (s\<lparr>cache_json := Truncated\<rparr>))))"

definition save_build_history :: "env \<Rightarrow> monitor \<Rightarrow> (exn + unit) \<times> monitor" where
  "save_build_history e s =
     (case config_path s ''logs_dir'' of
        Inl x \<Rightarrow> (Inl x, s)
      | Inr d \<Rightarrow>
          (case write_json e (path_str e d [''build_history.json'']) of
             WriteOk \<Rightarrow> (Inr (), s\<lparr>history_json := Dumped (build_history s)\<rparr>)
           | OpenFails x \<Rightarrow> (Inr (), logger ERROR (SaveHistoryFailed (str_exn x)) s)
           | DumpFails x \<Rightarrow>
               (Inr (), logger ERROR (SaveHistoryFailed (str_exn x))
                          (s\<lparr>history_json := Truncated\<rparr>))))"

subsection \<open>The method \<open>build\<close>\<close>

text \<open>The block under \<open>with self.build_lock\<close>: \<open>False\<close> when a build is in progress and
  the call is to return \<open>None\<close>, \<open>True\<close> when the call has taken the flag.\<close>

definition build_lock_section :: "monitor \<Rightarrow> bool \<times> monitor" where
  "build_lock_section s =
     (if is_building s then (False, logger WARNING BuildInProgress s)
      else (True, s\<lparr>is_building := True\<rparr>))"

text \<open>The \<open>except Exception\<close> clause.\<close>

definition build_except :: "exn \<Rightarrow> build_stats \<Rightarrow> monitor \<Rightarrow> build_stats \<times> monitor" where
  "build_except x b s =
     (b\<lparr>success := False, error_message := str_exn x\<rparr>, logger ERROR (BuildError (str_exn x)) s)"

text \<open>The \<open>finally\<close> clause, followed by \<open>return build_stats\<close>.\<close>

definition build_finally :: "env \<Rightarrow> build_stats \<Rightarrow> monitor \<Rightarrow> (exn + build_stats option) \<times> monitor" where
  "build_finally e b s =
     (let b1 = b\<lparr>end_time := clock_end e\<rparr>;
          s1 = s\<lparr>is_building := False\<rparr>;
          s2 = update_stats e b1 s1;
          s3 = s2\<lparr>build_history := deque_append (build_history s2) b1\<rparr>
      in case save_build_history e s3 of
           (Inl x, s4) \<Rightarrow> (Inl x, s4)
         | (Inr u, s4) \<Rightarrow>
             (case save_cache e s4 of
                (Inl x, s5) \<Rightarrow> (Inl x, s5)
              | (Inr u', s5) \<Rightarrow> (Inr (Some b1), s5)))"

text \<open>\<open>build\<close> from the line after the locked block to its return.\<close>

definition build_unlocked ::
  "env \<Rightarrow> string \<Rightarrow> string list option \<Rightarrow> monitor \<Rightarrow> (exn + build_stats option) \<times> monitor" where
  "build_unlocked e md changed_files s =
     (let b = \<lparr>start_time = clock_start e, end_time = 0, success = False, mode = md,
               files_changed = (case changed_files of None \<Rightarrow> [] | Some fs \<Rightarrow> fs),
               output_size_js = 0, output_size_wasm = 0, error_message = [],
               warnings = None\<rparr>
      in case build_try e md b s of
           (None, b1, s1) \<Rightarrow> build_finally e b1 s1
         | (Some x, b1, s1) \<Rightarrow>
             (case build_except x b1 s1 of (b2, s2) \<Rightarrow> build_finally e b2 s2))"

text \<open>\<open>build(mode, changed_files)\<close>: \<open>Inr None\<close> is the return value \<open>None\<close> of a skipped
  call, \<open>Inr (Some b)\<close> the returned record, \<open>Inl x\<close> an exception that leaves \<open>build\<close>.\<close>

definition build ::
  "env \<Rightarrow> string \<Rightarrow> string list option \<Rightarrow> monitor \<Rightarrow> (exn + build_stats option) \<times> monitor" where
  "build e md changed_files s =
     (case build_lock_section s of
        (False, s1) \<Rightarrow> (Inr None, s1)
      | (True, s1) \<Rightarrow> build_unlocked e md changed_files s1)"

subsection \<open>Event-driven monitoring\<close>

text \<open>
  The handler of \<open>watch_with_watchdog\<close>. \<open>pending_changes\<close> is a Python set, kept here
  as a list without repetitions; \<open>list(self.pending_changes)\<close> is that list (Python
  fixes no order for it).
\<close>

record handler =
  build_mode :: string
  pending_changes :: "string list"
  last_event_time :: real
  debounce_time :: real

record fs_event =
  is_directory :: bool
  src_path :: string

definition WASMEventHandler_init :: "env \<Rightarrow> monitor \<Rightarrow> string \<Rightarrow> exn + handler" where
  "WASMEventHandler_init e s md =
     (case top_key ''watch'' (watch (config s)) of
        Inl x \<Rightarrow> Inl x
      | Inr w \<Rightarrow>
          Inr \<lparr>build_mode = md, pending_changes = [], last_event_time = 0,
               debounce_time =
                 float_div e (case debounce_ms w of None \<Rightarrow> 1000 | Some ms \<Rightarrow> ms) 1000\<rparr>)"

text \<open>\<open>on_modified(event)\<close>; \<open>current_time\<close> is the reading of \<open>time.time()\<close> in it and \<open>e\<close>
  the world that a build started by this event sees.\<close>

definition on_modified ::
  "env \<Rightarrow> real \<Rightarrow> fs_event \<Rightarrow> handler \<times> monitor \<Rightarrow> (exn + unit) \<times> handler \<times> monitor" where
  "on_modified e current_time event hs =
     (case hs of (h, s) \<Rightarrow>
        if is_directory event then (Inr (), h, s)
        else if endswith (src_path event) [''.cpp'', ''.h'', ''.hpp'']
        then (let h1 = h\<lparr>pending_changes := List.insert (src_path event) (pending_changes h)\<rparr>
              in if float_sub e current_time (last_event_time h1) > debounce_time h1
                 then (if pending_changes h1 \<noteq> []
                       then (let s1 = logger INFO (ChangesDetected (length (pending_changes h1))) s
                             in case build e (build_mode h1) (Some (pending_changes h1)) s1 of
                                  (Inl x, s2) \<Rightarrow> (Inl x, h1, s2)
                                | (Inr r, s2) \<Rightarrow>
                                    (Inr (), h1\<lparr>pending_changes := [],
                                                last_event_time := current_time\<rparr>, s2))
                       else (Inr (), h1\<lparr>last_event_time := current_time\<rparr>, s))
                 else (Inr (), h1\<lparr>last_event_time := current_time\<rparr>, s))
        else (Inr (), h, s))"

subsection \<open>Sequences of calls\<close>

text \<open>
  Calls of \<open>build\<close> made one after the other, each in the world it finds, as the
  watch loops and \<open>main\<close> make them: the results in order and the final state.
\<close>

fun build_seq ::
  "(env \<times> string \<times> string list option) list \<Rightarrow> monitor
     \<Rightarrow> (exn + build_stats option) list \<times> monitor" where
  "build_seq [] s = ([], s)"
| "build_seq ((e, md, cf) # calls) s =
     (case build e md cf s of
        (r, s1) \<Rightarrow> (case build_seq calls s1 of (rs, s2) \<Rightarrow> (r # rs, s2)))"

subsection \<open>States of a monitor\<close>

text \<open>
  The states that a monitor goes through: the one that \<open>__init__\<close> returns, and the
  one after a call has passed the locked block of \<open>build\<close>, after a call has run the
  rest of \<open>build\<close>, and after a call of \<open>has_file_changed\<close>, in any order (calls of
  \<open>build\<close> from several threads interleave at these steps).
\<close>

inductive reachable :: "monitor \<Rightarrow> bool" where
  constructed: "BuildMonitor_init e cfile pv = Inr s \<Longrightarrow> reachable s"
| after_lock: "reachable s \<Longrightarrow> build_lock_section s = (entered, s') \<Longrightarrow> reachable s'"
| after_build: "reachable s \<Longrightarrow> build_unlocked e md cf s = (r, s') \<Longrightarrow> reachable s'"
| after_changed: "reachable s \<Longrightarrow> has_file_changed e p s = (r, s') \<Longrightarrow> reachable s'"

section \<open>Sample worlds\<close>

text \<open>ASCII stand-ins for \<open>str.split()\<close> and \<open>str.lower()\<close>, which agree with Python on
  ASCII strings.\<close>

definition is_space :: "char \<Rightarrow> bool" where
  "is_space c = (c \<in> set [CHR 0x09, CHR 0x0A, CHR 0x0B, CHR 0x0C, CHR 0x0D,
                           CHR 0x1C, CHR 0x1D, CHR 0x1E, CHR 0x1F, CHR 0x20])"

fun ascii_split_from :: "string \<Rightarrow> string \<Rightarrow> string list" where
  "ascii_split_from w [] = (if w = [] then [] else [w])"
| "ascii_split_from w (c # cs) =
     (if is_space c then (if w = [] then ascii_split_from [] cs else w # ascii_split_from [] cs)
      else ascii_split_from (w @ [c]) cs)"

definition ascii_split :: "string \<Rightarrow> string list" where
  "ascii_split s = ascii_split_from [] s"

definition ascii_lower_char :: "char \<Rightarrow> char" where
  "ascii_lower_char c =
     (case map_of (zip ''ABCDEFGHIJKLMNOPQRSTUVWXYZ'' ''abcdefghijklmnopqrstuvwxyz'') c of
        None \<Rightarrow> c
      | Some l \<Rightarrow> l)"

definition ascii_lower :: "string \<Rightarrow> string" where
  "ascii_lower s = map ascii_lower_char s"

text \<open>
  A world for the closed examples below: no file exists, the compiler is not installed,
  a child process exits with code 1 and prints nothing, and every write succeeds. The
  digest function stands in for MD5 (the examples only compare digests), and the
  arithmetic on floats is exact (it is on the numbers of the examples).
\<close>

definition sample_env :: env where
  "sample_env =
     \<lparr>md5 = (\<lambda>bs. word_of_nat (length bs)),
      path_str = (\<lambda>d ns. foldl (\<lambda>a n. a @ ''/'' @ n) d ns),
      str_split = ascii_split,
      str_lower = ascii_lower,
      float_add = (+), float_sub = (-), float_mul = (*), float_div = (/),
      open_rb = (\<lambda>p. Inl (Exn FileNotFoundError ''[Errno 2] No such file or directory'')),
      read_json_config = (\<lambda>p. Inl (Exn FileNotFoundError ''[Errno 2] No such file or directory'')),
      read_json_cache = (\<lambda>p. Inr (JObj Map.empty)),
      path_exists = (\<lambda>p. False),
      st_size = (\<lambda>p. 0),
      mkdir = (\<lambda>p. None),
      run_emcc_version = (\<lambda>pv. Inl (Exn FileNotFoundError ''[Errno 2] No such file or directory'')),
      run_shell = (\<lambda>cmd cwd. Inr \<lparr>returncode = 1, stdout = [], stderr = []\<rparr>),
      write_json = (\<lambda>p. WriteOk),
      clock_start = 100,
      clock_end = 103,
      now_isoformat = ''2024-05-01T12:00:00'',
      recursion_limit = 900,
      recursion_error_message = ''maximum recursion depth exceeded''\<rparr>"

text \<open>The monitor that \<open>__init__\<close> returns in that world.\<close>

definition sample_monitor :: monitor where
  "sample_monitor =
     \<lparr>config_file = ''/workspace/wasm-build.config.json'', config = get_default_config,
      file_hashes = JObj Map.empty, build_history = [], is_building = False,
      stats = \<lparr>total_builds = 0, successful_builds = 0, failed_builds = 0,
               total_build_time = 0, last_build = None\<rparr>,
      environ_PATH = Some ''/usr/bin'', cache_json = Unwritten, history_json = Unwritten,
      log = [(WARNING, ConfigNotFound ''/workspace/wasm-build.config.json'')]\<rparr>"

text \<open>The sample world with the compiler installed.\<close>

definition sample_env_emcc :: env where
  "sample_env_emcc =
     sample_env\<lparr>run_emcc_version :=
       (\<lambda>pv. Inr \<lparr>returncode = 0, stdout = ''emcc 3.1.45'', stderr = []\<rparr>)\<rparr>"

text \<open>The handler that \<open>watch_with_watchdog\<close> creates for the sample monitor: the default
  debounce time of one second.\<close>

definition sample_handler :: handler where
  "sample_handler =
     \<lparr>build_mode = ''release'', pending_changes = [], last_event_time = 0, debounce_time = 1\<rparr>"

lemma config_path_default:
  "config s = get_default_config \<Longrightarrow>
   config_path s ''workspace'' = Inr ''/workspace'' \<and>
   config_path s ''wasm_dir'' = Inr ''wasm'' \<and>
   config_path s ''public_dir'' = Inr ''public'' \<and>
   config_path s ''cache_dir'' = Inr ''.build-cache'' \<and>
   config_path s ''logs_dir'' = Inr ''logs''"
  by (simp add: config_path_def top_key_def subscript_def get_default_config_def)

lemma sample_init:
  "BuildMonitor_init sample_env ''/workspace/wasm-build.config.json'' (Some ''/usr/bin'')
     = Inr sample_monitor"
  by (simp add: BuildMonitor_init_def load_config_def sample_env_def is_FileNotFoundError_def
        setup_directories_def load_cache_def config_path_default sample_monitor_def)

section \<open>Content hasher and change cache\<close>

text \<open>The chunks that the loop of \<open>calculate_file_hash\<close> reads make up the file, so the
  digest is that of the file's bytes.\<close>

lemma concat_read_chunks: "concat (read_chunks bs) = bs"
proof (induction bs rule: read_chunks.induct)
  case (1 bs)
  show ?case
  proof (cases "take 4096 bs = []")
    case True
    then have "bs = []" by simp
    then show ?thesis by (subst read_chunks.simps) simp
  next
    case False
    with 1 have "concat (read_chunks (drop 4096 bs)) = drop 4096 bs" by simp
    with False show ?thesis by (subst read_chunks.simps) simp
  qed
qed

lemma foldl_hash_md5_update: "foldl hash_md5_update h cs = h @ concat cs"
  by (induction cs arbitrary: h) (simp_all add: hash_md5_update_def)

lemma length_hexdigest: "length (hexdigest w) = 32"
  by (simp add: hexdigest_def)

lemma hexdigest_nonempty: "hexdigest w \<noteq> []"
  using length_hexdigest [of w] by auto

lemma calculate_file_hash_eq:
  "calculate_file_hash e p =
     (case open_rb e p of
        Inr bs \<Rightarrow> Inr (hexdigest (md5 e bs))
      | Inl x \<Rightarrow> if exn_class_of x = FileNotFoundError then Inr [] else Inl x)"
  by (simp add: calculate_file_hash_def foldl_hash_md5_update concat_read_chunks
        is_FileNotFoundError_def split: sum.splits)

text \<open>
  C6 (amended). \<open>calculate_file_hash\<close> returns the hexadecimal MD5 digest of the bytes
  of a file that opens, which has 32 digits; it returns the empty string exactly when
  opening the file raises \<open>FileNotFoundError\<close>, and any other exception of \<open>open\<close>
  (a permission error, say) leaves the function.
\<close>

theorem calculate_file_hash_sentinel:
  "calculate_file_hash e p =
     (case open_rb e p of
        Inr bs \<Rightarrow> Inr (hexdigest (md5 e bs))
      | Inl x \<Rightarrow> if exn_class_of x = FileNotFoundError then Inr [] else Inl x)
   \<and> length (hexdigest (md5 e bs)) = 32
   \<and> (calculate_file_hash e p = Inr []) =
       (\<exists>x. open_rb e p = Inl x \<and> exn_class_of x = FileNotFoundError)"
  using hexdigest_nonempty
  by (auto simp add: calculate_file_hash_eq length_hexdigest split: sum.splits)

text \<open>C6 as stated fails: on a file that exists and may not be read, the
  \<open>PermissionError\<close> of \<open>open\<close> is raised to the caller.\<close>

theorem permission_error_leaves_calculate_file_hash:
  "calculate_file_hash
     (sample_env\<lparr>open_rb := (\<lambda>p. Inl (Exn PermissionError ''[Errno 13] Permission denied''))\<rparr>)
     ''wasm/game_engine.cpp''
   = Inl (Exn PermissionError ''[Errno 13] Permission denied'')"
  by (simp add: calculate_file_hash_def is_FileNotFoundError_def)

text \<open>The two cases of \<open>has_file_changed\<close> once the digest is computed: the cache is a
  dict, or it is the other JSON value that \<open>load_cache\<close> found in the cache file.\<close>

lemma has_file_changed_dict:
  assumes "file_hashes s = JObj d" and "calculate_file_hash e p = Inr h"
  shows "has_file_changed e p s =
           (if JStr h \<noteq> dict_get d p (JStr [])
            then (Inr True, s\<lparr>file_hashes := JObj (d(p \<mapsto> JStr h))\<rparr>)
            else (Inr False, s))"
  using assms by (simp add: has_file_changed_def)

lemma has_file_changed_not_dict:
  assumes "\<forall>d. file_hashes s \<noteq> JObj d" and "calculate_file_hash e p = Inr h"
  shows "has_file_changed e p s = (Inl (no_attribute_get (file_hashes s)), s)"
  using assms by (cases "file_hashes s") (simp_all add: has_file_changed_def)

lemma has_file_changed_returns:
  assumes "has_file_changed e p s = (Inr r, s')"
  shows "\<exists>d h. file_hashes s = JObj d \<and> calculate_file_hash e p = Inr h"
proof (cases "calculate_file_hash e p")
  case (Inl x)
  with assms show ?thesis by (simp add: has_file_changed_def)
next
  case (Inr h)
  show ?thesis
  proof (cases "\<exists>d. file_hashes s = JObj d")
    case True
    with Inr show ?thesis by simp
  next
    case False
    then have "\<forall>d. file_hashes s \<noteq> JObj d" by simp
    from has_file_changed_not_dict [OF this Inr] assms show ?thesis by simp
  qed
qed

text \<open>
  C4 (amended). When a call of \<open>has_file_changed\<close> returns, a second call for the same
  path in the same world returns \<open>False\<close> and changes nothing; the first call returns
  \<open>True\<close> exactly when the digest it computes differs from the stored value (the empty
  string for a path that is not in the cache).
\<close>

theorem has_file_changed_settles:
  assumes "has_file_changed e p s = (Inr r, s')"
  shows "has_file_changed e p s' = (Inr False, s') \<and>
         (\<exists>d h. file_hashes s = JObj d \<and> calculate_file_hash e p = Inr h \<and>
                 r = (JStr h \<noteq> dict_get d p (JStr [])))"
proof -
  from has_file_changed_returns [OF assms] obtain d h
    where d: "file_hashes s = JObj d" and h: "calculate_file_hash e p = Inr h" by blast
  note first = has_file_changed_dict [OF d h]
  show ?thesis
  proof (cases "JStr h = dict_get d p (JStr [])")
    case True
    with first assms have "s' = s" "r = False" by simp_all
    with True d h first show ?thesis by auto
  next
    case False
    with first assms have s': "s' = s\<lparr>file_hashes := JObj (d(p \<mapsto> JStr h))\<rparr>" and r: "r = True"
      by simp_all
    have d': "file_hashes s' = JObj (d(p \<mapsto> JStr h))" by (simp add: s')
    have "dict_get (d(p \<mapsto> JStr h)) p (JStr []) = JStr h" by (simp add: dict_get_def)
    with has_file_changed_dict [OF d' h] have "has_file_changed e p s' = (Inr False, s')"
      by simp
    with False d h r show ?thesis by auto
  qed
qed

text \<open>A new file: the first call reports it and stores its digest, the second does not.\<close>

theorem has_file_changed_settles_witness:
  "has_file_changed (sample_env\<lparr>open_rb := (\<lambda>p. Inr [1, 2, 3])\<rparr>) ''wasm/game_engine.cpp''
     sample_monitor
   = (Inr True, sample_monitor\<lparr>file_hashes :=
                  JObj [''wasm/game_engine.cpp'' \<mapsto> JStr (hexdigest (md5 sample_env [1, 2, 3]))]\<rparr>)
   \<and> has_file_changed (sample_env\<lparr>open_rb := (\<lambda>p. Inr [1, 2, 3])\<rparr>) ''wasm/game_engine.cpp''
       (sample_monitor\<lparr>file_hashes :=
          JObj [''wasm/game_engine.cpp'' \<mapsto> JStr (hexdigest (md5 sample_env [1, 2, 3]))]\<rparr>)
   = (Inr False, sample_monitor\<lparr>file_hashes :=
                   JObj [''wasm/game_engine.cpp'' \<mapsto> JStr (hexdigest (md5 sample_env [1, 2, 3]))]\<rparr>)"
proof -
  let ?e = "sample_env\<lparr>open_rb := (\<lambda>p. Inr [1, 2, 3])\<rparr>"
  let ?p = "''wasm/game_engine.cpp''"
  let ?s = "sample_monitor\<lparr>file_hashes :=
              JObj [?p \<mapsto> JStr (hexdigest (md5 sample_env [1, 2, 3]))]\<rparr>"
  have first: "has_file_changed ?e ?p sample_monitor = (Inr True, ?s)"
    using hexdigest_nonempty
    by (simp add: has_file_changed_def calculate_file_hash_eq dict_get_def sample_monitor_def
          sample_env_def)
  from has_file_changed_settles [OF first] have "has_file_changed ?e ?p ?s = (Inr False, ?s)" ..
  with first show ?thesis ..
qed

text \<open>C4 as stated fails: for a file whose digest is the cached one, the first of two
  calls returns \<open>False\<close>.\<close>

theorem unchanged_cached_file_not_reported:
  "fst (has_file_changed (sample_env\<lparr>open_rb := (\<lambda>p. Inr [1, 2, 3])\<rparr>) ''wasm/game_engine.cpp''
          (sample_monitor\<lparr>file_hashes :=
             JObj [''wasm/game_engine.cpp'' \<mapsto> JStr (hexdigest (md5 sample_env [1, 2, 3]))]\<rparr>))
   = Inr False"
  by (simp add: has_file_changed_def calculate_file_hash_eq dict_get_def sample_env_def)

text \<open>
  C5 (amended). Where the cache is a dict (as \<open>__init__\<close> creates it and as a cache file
  holding a JSON object loads it) and the path is not one of its keys,
  \<open>has_file_changed\<close> returns \<open>True\<close> and stores the digest when the file opens; it
  returns \<open>False\<close> and leaves the cache as it is when the file does not exist; any other
  exception of \<open>open\<close> is raised. Where the cache is not a dict (the cache file held
  another JSON value), the call returns nothing: it raises the exception of \<open>open\<close>, or
  else the \<open>AttributeError\<close> of \<open>self.file_hashes.get\<close>.
\<close>

theorem has_file_changed_unseen:
  "(file_hashes s = JObj d \<and> d p = None \<longrightarrow>
      has_file_changed e p s =
        (case open_rb e p of
           Inr bs \<Rightarrow>
             (Inr True, s\<lparr>file_hashes := JObj (d(p \<mapsto> JStr (hexdigest (md5 e bs))))\<rparr>)
         | Inl x \<Rightarrow> if exn_class_of x = FileNotFoundError then (Inr False, s) else (Inl x, s)))
   \<and> ((\<forall>d. file_hashes s \<noteq> JObj d) \<longrightarrow>
      has_file_changed e p s =
        (case open_rb e p of
           Inr bs \<Rightarrow> (Inl (no_attribute_get (file_hashes s)), s)
         | Inl x \<Rightarrow>
             if exn_class_of x = FileNotFoundError
             then (Inl (no_attribute_get (file_hashes s)), s) else (Inl x, s)))"
proof (intro conjI impI)
  assume "file_hashes s = JObj d \<and> d p = None"
  then show "has_file_changed e p s =
        (case open_rb e p of
           Inr bs \<Rightarrow>
             (Inr True, s\<lparr>file_hashes := JObj (d(p \<mapsto> JStr (hexdigest (md5 e bs))))\<rparr>)
         | Inl x \<Rightarrow> if exn_class_of x = FileNotFoundError then (Inr False, s) else (Inl x, s))"
    using hexdigest_nonempty
    by (simp add: has_file_changed_def calculate_file_hash_eq dict_get_def split: sum.splits)
next
  assume nd: "\<forall>d. file_hashes s \<noteq> JObj d"
  show "has_file_changed e p s =
        (case open_rb e p of
           Inr bs \<Rightarrow> (Inl (no_attribute_get (file_hashes s)), s)
         | Inl x \<Rightarrow>
             if exn_class_of x = FileNotFoundError
             then (Inl (no_attribute_get (file_hashes s)), s) else (Inl x, s))"
  proof (cases "calculate_file_hash e p")
    case (Inl x)
    then show ?thesis
      by (simp add: has_file_changed_def calculate_file_hash_eq split: sum.splits if_splits)
  next
    case (Inr h)
    from has_file_changed_not_dict [OF nd Inr] Inr show ?thesis
      by (simp add: calculate_file_hash_eq split: sum.splits if_splits)
  qed
qed

text \<open>An unseen file that opens is reported when the cache is a dict, and the call
  raises when the cache is a list.\<close>

theorem has_file_changed_unseen_witness:
  "(file_hashes sample_monitor = JObj Map.empty \<and>
    has_file_changed (sample_env\<lparr>open_rb := (\<lambda>p. Inr [1, 2, 3])\<rparr>) ''wasm/game_engine.cpp''
      sample_monitor
    = (Inr True, sample_monitor\<lparr>file_hashes :=
         JObj [''wasm/game_engine.cpp'' \<mapsto> JStr (hexdigest (md5 sample_env [1, 2, 3]))]\<rparr>))
   \<and> has_file_changed (sample_env\<lparr>open_rb := (\<lambda>p. Inr [1, 2, 3])\<rparr>) ''wasm/game_engine.cpp''
       (sample_monitor\<lparr>file_hashes := JArr []\<rparr>)
     = (Inl (no_attribute_get (JArr [])), sample_monitor\<lparr>file_hashes := JArr []\<rparr>)"
proof -
  let ?e = "sample_env\<lparr>open_rb := (\<lambda>p. Inr [1, 2, 3])\<rparr>"
  let ?p = "''wasm/game_engine.cpp''"
  have unseen: "file_hashes sample_monitor = JObj Map.empty \<and> Map.empty ?p = None"
    by (simp add: sample_monitor_def)
  have opens: "open_rb ?e ?p = Inr [1, 2, 3]" "md5 ?e = md5 sample_env" by simp_all
  have no_dict: "\<forall>d. file_hashes (sample_monitor\<lparr>file_hashes := JArr []\<rparr>) \<noteq> JObj d" by simp
  from has_file_changed_unseen [of sample_monitor Map.empty ?p ?e] unseen opens
  have "has_file_changed ?e ?p sample_monitor
          = (Inr True, sample_monitor\<lparr>file_hashes :=
               JObj [?p \<mapsto> JStr (hexdigest (md5 sample_env [1, 2, 3]))]\<rparr>)"
    by simp
  moreover
  from has_file_changed_unseen [of "sample_monitor\<lparr>file_hashes := JArr []\<rparr>" Map.empty ?p ?e]
    no_dict opens
  have "has_file_changed ?e ?p (sample_monitor\<lparr>file_hashes := JArr []\<rparr>)
          = (Inl (no_attribute_get (JArr [])), sample_monitor\<lparr>file_hashes := JArr []\<rparr>)"
    by simp
  ultimately show ?thesis using unseen by simp
qed

text \<open>C5 as stated fails: an unseen path whose file does not exist is not reported
  (the empty digest of the missing file equals the default of the lookup).\<close>

theorem unseen_missing_file_not_reported:
  "file_hashes sample_monitor = JObj Map.empty \<and>
   has_file_changed sample_env ''wasm/removed.cpp'' sample_monitor = (Inr False, sample_monitor)"
  by (simp add: has_file_changed_def calculate_file_hash_eq dict_get_def sample_env_def
        sample_monitor_def)

text \<open>A cache file that holds a JSON value other than an object leaves a cache on which
  \<open>has_file_changed\<close> raises.\<close>

lemma load_cache_keeps_any_value:
  assumes "config_path s ''cache_dir'' = Inr d"
    and "path_exists e (path_str e d [''file_hashes.json''])"
    and "read_json_cache e (path_str e d [''file_hashes.json'']) = Inr v"
  shows "file_hashes (snd (load_cache e s)) = v"
  using assms by (simp add: load_cache_def Let_def logger_def)

section \<open>Configuration\<close>

text \<open>
  C8 (amended). When reading the configuration file raises, \<open>load_config\<close> returns the
  built-in defaults, with a warning in the log, if the exception is \<open>FileNotFoundError\<close>;
  any other exception (an unreadable or malformed file) leaves \<open>load_config\<close> and the
  constructor of the monitor.
\<close>

theorem load_config_recovers_missing_file_only:
  assumes "read_json_config e cfile = Inl x"
  shows "if exn_class_of x = FileNotFoundError
         then load_config e cfile = (Inr get_default_config, [(WARNING, ConfigNotFound cfile)])
         else load_config e cfile = (Inl x, []) \<and> BuildMonitor_init e cfile pv = Inl x"
proof (cases "exn_class_of x = FileNotFoundError")
  case True
  with assms show ?thesis by (simp add: load_config_def is_FileNotFoundError_def)
next
  case False
  with assms have raised: "load_config e cfile = (Inl x, [])"
    by (simp add: load_config_def is_FileNotFoundError_def)
  then have "BuildMonitor_init e cfile pv = Inl x"
    by (simp add: BuildMonitor_init_def)
  with raised False show ?thesis by simp
qed

text \<open>A missing configuration file gives the defaults.\<close>

theorem load_config_recovers_missing_file_only_witness:
  "read_json_config sample_env ''/workspace/wasm-build.config.json''
     = Inl (Exn FileNotFoundError ''[Errno 2] No such file or directory'')
   \<and> load_config sample_env ''/workspace/wasm-build.config.json''
     = (Inr get_default_config, [(WARNING, ConfigNotFound ''/workspace/wasm-build.config.json'')])"
proof -
  have missing: "read_json_config sample_env ''/workspace/wasm-build.config.json''
     = Inl (Exn FileNotFoundError ''[Errno 2] No such file or directory'')"
    by (simp add: sample_env_def)
  from load_config_recovers_missing_file_only [OF missing] missing show ?thesis by simp
qed

text \<open>C8 as stated fails: a malformed configuration file makes \<open>load_config\<close>, and
  with it the constructor, raise the decoder's exception.\<close>

theorem malformed_config_is_fatal:
  "load_config
     (sample_env\<lparr>read_json_config :=
        (\<lambda>p. Inl (Exn JSONDecodeError ''Expecting value: line 1 column 1 (char 0)''))\<rparr>)
     ''/workspace/wasm-build.config.json''
   = (Inl (Exn JSONDecodeError ''Expecting value: line 1 column 1 (char 0)''), [])
   \<and> BuildMonitor_init
     (sample_env\<lparr>read_json_config :=
        (\<lambda>p. Inl (Exn JSONDecodeError ''Expecting value: line 1 column 1 (char 0)''))\<rparr>)
     ''/workspace/wasm-build.config.json'' (Some ''/usr/bin'')
   = Inl (Exn JSONDecodeError ''Expecting value: line 1 column 1 (char 0)'')"
  by (simp add: load_config_def BuildMonitor_init_def is_FileNotFoundError_def)

section \<open>Build orchestrator: what every call does\<close>

text \<open>The steps of the \<open>try\<close> block write to the log and to \<open>PATH\<close> only.\<close>

definition only_log_and_PATH :: "monitor \<Rightarrow> monitor \<Rightarrow> bool" where
  "only_log_and_PATH s s' =
     (config_file s' = config_file s \<and> config s' = config s \<and>
      file_hashes s' = file_hashes s \<and> build_history s' = build_history s \<and>
      is_building s' = is_building s \<and> stats s' = stats s \<and>
      cache_json s' = cache_json s \<and> history_json s' = history_json s)"

lemma only_log_and_PATH_refl: "only_log_and_PATH s s"
  by (simp add: only_log_and_PATH_def)

lemma only_log_and_PATH_trans:
  "only_log_and_PATH s s1 \<Longrightarrow> only_log_and_PATH s1 s2 \<Longrightarrow> only_log_and_PATH s s2"
  by (simp add: only_log_and_PATH_def)

lemma only_log_and_PATH_logger: "only_log_and_PATH s (logger l m s)"
  by (simp add: only_log_and_PATH_def logger_def)

lemma only_log_and_PATH_logger': "only_log_and_PATH s s1 \<Longrightarrow> only_log_and_PATH s (logger l m s1)"
  by (simp add: only_log_and_PATH_def logger_def)

lemma config_path_cong: "config s' = config s \<Longrightarrow> config_path s' k = config_path s k"
  by (simp add: config_path_def)

lemma probe_emcc_frame: "only_log_and_PATH s (snd (probe_emcc e s))"
  by (simp add: probe_emcc_def only_log_and_PATH_refl only_log_and_PATH_logger
        split: sum.splits)

lemma check_emscripten_frame: "only_log_and_PATH s (snd (check_emscripten depth e s))"
proof (induction depth arbitrary: s)
  case 0
  show ?case by (simp add: only_log_and_PATH_refl)
next
  case (Suc depth)
  obtain r s1 where p: "probe_emcc e s = (r, s1)" by (cases "probe_emcc e s")
  with probe_emcc_frame [of s e] have f1: "only_log_and_PATH s s1" by simp
  show ?case
  proof (cases r)
    case (Inl x)
    with p f1 show ?thesis by simp
  next
    case (Inr found)
    show ?thesis
    proof (cases found)
      case True
      with p f1 Inr show ?thesis by simp
    next
      case False
      show ?thesis
      proof (cases "config_path s1 ''workspace''")
        case (Inl x)
        with p f1 Inr False show ?thesis by simp
      next
        case ws: (Inr ws)
        show ?thesis
        proof (cases "path_exists e (path_str e ws [''emsdk'', ''emsdk_env.sh''])")
          case no: False
          with p f1 Inr False ws show ?thesis by (simp add: only_log_and_PATH_logger')
        next
          case yes: True
          show ?thesis
          proof (cases "environ_PATH s1")
            case None
            with p f1 Inr False ws yes show ?thesis
              by (simp add: logger_def only_log_and_PATH_def)
          next
            case (Some pth)
            let ?s3 = "(logger INFO SourcingEnvironment s1)
                         \<lparr>environ_PATH := Some (''/workspace/emsdk/upstream/emscripten:'' @ pth)\<rparr>"
            have "only_log_and_PATH s ?s3"
              using f1 by (simp add: only_log_and_PATH_def logger_def)
            from only_log_and_PATH_trans [OF this Suc.IH [of ?s3]]
            show ?thesis using p Inr False ws yes Some by (simp add: logger_def)
          qed
        qed
      qed
    qed
  qed
qed

lemma run_compiler_frame: "only_log_and_PATH s (snd (run_compiler e md s))"
proof -
  let ?s0 = "logger INFO (StartingBuild md) s"
  obtain r s1 where c: "check_emscripten (recursion_limit e) e ?s0 = (r, s1)"
    by (cases "check_emscripten (recursion_limit e) e ?s0")
  from check_emscripten_frame [of ?s0 "recursion_limit e" e] c
  have "only_log_and_PATH ?s0 s1" by simp
  from only_log_and_PATH_trans [OF only_log_and_PATH_logger this]
  have f: "only_log_and_PATH s s1" .
  then show ?thesis
    using c
    by (auto simp add: run_compiler_def Let_def only_log_and_PATH_logger'
          split: sum.splits bool.splits)
qed

lemma classify_result_frame:
  "only_log_and_PATH s (snd (snd (classify_result e result b s)))"
  by (simp add: classify_result_def Let_def only_log_and_PATH_logger
        only_log_and_PATH_logger' split: sum.splits)

lemma parse_warnings_frame: "only_log_and_PATH s (snd (parse_warnings e result b s))"
  by (simp add: parse_warnings_def Let_def only_log_and_PATH_logger only_log_and_PATH_refl)

lemma build_try_frame: "only_log_and_PATH s (snd (snd (build_try e md b s)))"
proof -
  obtain r s1 where rc: "run_compiler e md s = (r, s1)" by (cases "run_compiler e md s")
  with run_compiler_frame [of s e md] have f1: "only_log_and_PATH s s1" by simp
  show ?thesis
  proof (cases r)
    case (Inl x)
    with rc f1 show ?thesis by (simp add: build_try_def)
  next
    case (Inr result)
    obtain x b1 s2 where cl: "classify_result e result b s1 = (x, b1, s2)"
      by (cases "classify_result e result b s1")
    with classify_result_frame [of s1 e result b] have "only_log_and_PATH s1 s2" by simp
    with f1 have f2: "only_log_and_PATH s s2" by (rule only_log_and_PATH_trans)
    obtain b2 s3 where pw: "parse_warnings e result b1 s2 = (b2, s3)"
      by (cases "parse_warnings e result b1 s2")
    with parse_warnings_frame [of s2 e result b1] have "only_log_and_PATH s2 s3" by simp
    with f2 have "only_log_and_PATH s s3" by (rule only_log_and_PATH_trans)
    with rc Inr cl pw f2 show ?thesis by (cases x) (simp_all add: build_try_def)
  qed
qed


lemma run_compiler_Inr:
  assumes "run_compiler e md s = (Inr result, s1)"
  shows "\<exists>s2 cmd ws.
           check_emscripten (recursion_limit e) e (logger INFO (StartingBuild md) s) = (Inr True, s2) \<and>
           prepare_build_command e md s2 = Inr cmd \<and>
           s1 = logger INFO (BuildCommand cmd) s2 \<and>
           config_path s1 ''workspace'' = Inr ws \<and>
           run_shell e cmd ws = Inr result"
proof -
  let ?s0 = "logger INFO (StartingBuild md) s"
  obtain r s2 where c: "check_emscripten (recursion_limit e) e ?s0 = (r, s2)"
    by (cases "check_emscripten (recursion_limit e) e ?s0")
  show ?thesis
  proof (cases r)
    case (Inl x)
    with assms c show ?thesis by (simp add: run_compiler_def)
  next
    case (Inr found)
    show ?thesis
    proof (cases found)
      case False
      with assms c Inr show ?thesis by (simp add: run_compiler_def)
    next
      case True
      show ?thesis
      proof (cases "prepare_build_command e md s2")
        case (Inl x)
        with assms c Inr True show ?thesis by (simp add: run_compiler_def)
      next
        case cmd: (Inr cmd)
        let ?s3 = "logger INFO (BuildCommand cmd) s2"
        show ?thesis
        proof (cases "config_path ?s3 ''workspace''")
          case (Inl x)
          with assms c Inr True cmd show ?thesis by (simp add: run_compiler_def)
        next
          case ws: (Inr ws)
          show ?thesis
          proof (cases "run_shell e cmd ws")
            case (Inl x)
            with assms c Inr True cmd ws show ?thesis by (simp add: run_compiler_def)
          next
            case res: (Inr result')
            with assms c Inr True cmd ws have "result' = result" "s1 = ?s3"
              by (simp_all add: run_compiler_def)
            with c Inr True cmd ws res show ?thesis by simp
          qed
        qed
      qed
    qed
  qed
qed

lemma prepare_build_command_public_dir:
  assumes "prepare_build_command e md s = Inr cmd"
  shows "\<exists>pd. config_path s ''public_dir'' = Inr pd"
proof (cases "config_path s ''public_dir''")
  case (Inl x)
  with assms show ?thesis
    by (simp add: prepare_build_command_def Let_def split: sum.splits)
next
  case (Inr pd)
  then show ?thesis by simp
qed

lemma run_compiler_public_dir:
  assumes "run_compiler e md s = (Inr result, s1)"
  shows "\<exists>pd. config_path s1 ''public_dir'' = Inr pd"
proof -
  from run_compiler_Inr [OF assms] obtain s2 cmd
    where cmd: "prepare_build_command e md s2 = Inr cmd"
      and s1: "s1 = logger INFO (BuildCommand cmd) s2"
    by blast
  from prepare_build_command_public_dir [OF cmd] obtain pd
    where "config_path s2 ''public_dir'' = Inr pd" ..
  moreover have "config s1 = config s2" by (simp add: s1 logger_def)
  ultimately show ?thesis using config_path_cong [of s1 s2] by simp
qed

lemma parse_warnings_record:
  "fst (parse_warnings e result b s) =
     (if stdout result = [] \<or> warning_lines e (stdout result) = [] then b
      else b\<lparr>warnings := Some (warning_lines e (stdout result))\<rparr>)"
  by (simp add: parse_warnings_def Let_def)

lemma classify_result_record:
  assumes "config_path s ''public_dir'' = Inr pd"
  shows "\<exists>b1 s1. classify_result e result b s = (None, b1, s1) \<and>
           success b1 = (returncode result = 0) \<and>
           error_message b1 = (if returncode result = 0 then error_message b else stderr result) \<and>
           start_time b1 = start_time b \<and> end_time b1 = end_time b \<and> mode b1 = mode b \<and>
           files_changed b1 = files_changed b \<and> warnings b1 = warnings b"
proof (cases "returncode result = 0")
  case True
  have "config_path (logger INFO BuildSuccessful s) ''public_dir'' = Inr pd"
    using assms by (simp add: config_path_def logger_def)
  with True show ?thesis by (simp add: classify_result_def Let_def)
next
  case False
  then show ?thesis by (simp add: classify_result_def)
qed

lemma build_try_raises:
  "run_compiler e md s = (Inl x, s1) \<Longrightarrow> build_try e md b s = (Some x, b, s1)"
  by (simp add: build_try_def)

lemma build_try_runs:
  assumes "run_compiler e md s = (Inr result, s1)"
  shows "\<exists>b1 s2. build_try e md b s = (None, b1, s2) \<and>
           success b1 = (returncode result = 0) \<and>
           error_message b1 = (if returncode result = 0 then error_message b else stderr result) \<and>
           warnings b1 = (if stdout result = [] \<or> warning_lines e (stdout result) = [] then warnings b
                          else Some (warning_lines e (stdout result))) \<and>
           start_time b1 = start_time b \<and> end_time b1 = end_time b \<and> mode b1 = mode b \<and>
           files_changed b1 = files_changed b"
proof -
  from run_compiler_public_dir [OF assms] obtain pd
    where "config_path s1 ''public_dir'' = Inr pd" ..
  from classify_result_record [OF this, of e result b] obtain b1 s2
    where cl: "classify_result e result b s1 = (None, b1, s2)"
      and b1: "success b1 = (returncode result = 0)"
        "error_message b1 = (if returncode result = 0 then error_message b else stderr result)"
        "start_time b1 = start_time b" "end_time b1 = end_time b" "mode b1 = mode b"
        "files_changed b1 = files_changed b" "warnings b1 = warnings b"
    by blast
  obtain b2 s3 where pw: "parse_warnings e result b1 s2 = (b2, s3)"
    by (cases "parse_warnings e result b1 s2")
  with parse_warnings_record [of e result b1 s2]
  have b2: "b2 = (if stdout result = [] \<or> warning_lines e (stdout result) = [] then b1
                  else b1\<lparr>warnings := Some (warning_lines e (stdout result))\<rparr>)"
    by simp
  have "build_try e md b s = (None, b2, s3)"
    using assms cl pw by (simp add: build_try_def)
  with b1 b2 show ?thesis by simp
qed


lemma update_stats_post:
  "total_builds (stats (update_stats e b s)) = total_builds (stats s) + 1 \<and>
   successful_builds (stats (update_stats e b s))
     = successful_builds (stats s) + (if success b then 1 else 0) \<and>
   failed_builds (stats (update_stats e b s))
     = failed_builds (stats s) + (if success b then 0 else 1) \<and>
   total_build_time (stats (update_stats e b s))
     = float_add e (total_build_time (stats s)) (duration e b) \<and>
   last_build (stats (update_stats e b s)) = Some (now_isoformat e) \<and>
   config (update_stats e b s) = config s \<and>
   file_hashes (update_stats e b s) = file_hashes s \<and>
   build_history (update_stats e b s) = build_history s \<and>
   is_building (update_stats e b s) = is_building s \<and>
   cache_json (update_stats e b s) = cache_json s \<and>
   history_json (update_stats e b s) = history_json s"
  by (simp add: update_stats_def Let_def logger_def)

lemma save_build_history_post:
  assumes "config_path s ''logs_dir'' = Inr ld"
  shows "\<exists>s'. save_build_history e s = (Inr (), s') \<and>
           history_json s' =
             (case write_json e (path_str e ld [''build_history.json'']) of
                WriteOk \<Rightarrow> Dumped (build_history s)
              | OpenFails x \<Rightarrow> history_json s
              | DumpFails x \<Rightarrow> Truncated) \<and>
           (case write_json e (path_str e ld [''build_history.json'']) of
              WriteOk \<Rightarrow> log s' = log s
            | OpenFails x \<Rightarrow> log s' = log s @ [(ERROR, SaveHistoryFailed (str_exn x))]
            | DumpFails x \<Rightarrow> log s' = log s @ [(ERROR, SaveHistoryFailed (str_exn x))]) \<and>
           config s' = config s \<and> file_hashes s' = file_hashes s \<and>
           build_history s' = build_history s \<and> is_building s' = is_building s \<and>
           stats s' = stats s \<and> cache_json s' = cache_json s"
  using assms
  by (cases "write_json e (path_str e ld [''build_history.json''])")
     (simp_all add: save_build_history_def logger_def)

lemma save_cache_post:
  assumes "config_path s ''cache_dir'' = Inr cd"
  shows "\<exists>s'. save_cache e s = (Inr (), s') \<and>
           cache_json s' =
             (case write_json e (path_str e cd [''file_hashes.json'']) of
                WriteOk \<Rightarrow> Dumped (file_hashes s)
              | OpenFails x \<Rightarrow> cache_json s
              | DumpFails x \<Rightarrow> Truncated) \<and>
           (case write_json e (path_str e cd [''file_hashes.json'']) of
              WriteOk \<Rightarrow> log s' = log s
            | OpenFails x \<Rightarrow> log s' = log s @ [(ERROR, SaveCacheFailed (str_exn x))]
            | DumpFails x \<Rightarrow> log s' = log s @ [(ERROR, SaveCacheFailed (str_exn x))]) \<and>
           config s' = config s \<and> file_hashes s' = file_hashes s \<and>
           build_history s' = build_history s \<and> is_building s' = is_building s \<and>
           stats s' = stats s \<and> history_json s' = history_json s"
  using assms
  by (cases "write_json e (path_str e cd [''file_hashes.json''])")
     (simp_all add: save_cache_def logger_def)


lemma build_finally_post:
  assumes ld: "config_path s ''logs_dir'' = Inr ld" and cd: "config_path s ''cache_dir'' = Inr cd"
  shows "\<exists>s'. build_finally e b s = (Inr (Some (b\<lparr>end_time := clock_end e\<rparr>)), s') \<and>
           \<not> is_building s' \<and> config s' = config s \<and> file_hashes s' = file_hashes s \<and>
           build_history s' = deque_append (build_history s) (b\<lparr>end_time := clock_end e\<rparr>) \<and>
           total_builds (stats s') = total_builds (stats s) + 1 \<and>
           successful_builds (stats s') = successful_builds (stats s) + (if success b then 1 else 0) \<and>
           failed_builds (stats s') = failed_builds (stats s) + (if success b then 0 else 1) \<and>
           total_build_time (stats s')
             = float_add e (total_build_time (stats s)) (float_sub e (clock_end e) (start_time b)) \<and>
           last_build (stats s') = Some (now_isoformat e) \<and>
           history_json s' =
             (case write_json e (path_str e ld [''build_history.json'']) of
                WriteOk \<Rightarrow> Dumped (build_history s')
              | OpenFails x \<Rightarrow> history_json s
              | DumpFails x \<Rightarrow> Truncated) \<and>
           cache_json s' =
             (case write_json e (path_str e cd [''file_hashes.json'']) of
                WriteOk \<Rightarrow> Dumped (file_hashes s)
              | OpenFails x \<Rightarrow> cache_json s
              | DumpFails x \<Rightarrow> Truncated) \<and>
           (case write_json e (path_str e ld [''build_history.json'']) of
              WriteOk \<Rightarrow> True
            | OpenFails x \<Rightarrow> (ERROR, SaveHistoryFailed (str_exn x)) \<in> set (log s')
            | DumpFails x \<Rightarrow> (ERROR, SaveHistoryFailed (str_exn x)) \<in> set (log s')) \<and>
           (case write_json e (path_str e cd [''file_hashes.json'']) of
              WriteOk \<Rightarrow> True
            | OpenFails x \<Rightarrow> (ERROR, SaveCacheFailed (str_exn x)) \<in> set (log s')
            | DumpFails x \<Rightarrow> (ERROR, SaveCacheFailed (str_exn x)) \<in> set (log s'))"
proof -
  define b1 where "b1 = b\<lparr>end_time := clock_end e\<rparr>"
  define s2 where "s2 = update_stats e b1 (s\<lparr>is_building := False\<rparr>)"
  define s3 where "s3 = s2\<lparr>build_history := deque_append (build_history s2) b1\<rparr>"
  note us = update_stats_post [of e b1 "s\<lparr>is_building := False\<rparr>", folded s2_def]
  have c3: "config s3 = config s" by (simp add: s3_def us)
  from config_path_cong [OF c3] ld have "config_path s3 ''logs_dir'' = Inr ld" by simp
  from save_build_history_post [OF this, of e] obtain s4
    where h: "save_build_history e s3 = (Inr (), s4)"
      and hj: "history_json s4 =
             (case write_json e (path_str e ld [''build_history.json'']) of
                WriteOk \<Rightarrow> Dumped (build_history s3)
              | OpenFails x \<Rightarrow> history_json s3
              | DumpFails x \<Rightarrow> Truncated)"
      and hl: "(case write_json e (path_str e ld [''build_history.json'']) of
              WriteOk \<Rightarrow> log s4 = log s3
            | OpenFails x \<Rightarrow> log s4 = log s3 @ [(ERROR, SaveHistoryFailed (str_exn x))]
            | DumpFails x \<Rightarrow> log s4 = log s3 @ [(ERROR, SaveHistoryFailed (str_exn x))])"
      and f4: "config s4 = config s3" "file_hashes s4 = file_hashes s3"
        "build_history s4 = build_history s3" "is_building s4 = is_building s3"
        "stats s4 = stats s3" "cache_json s4 = cache_json s3"
    by blast
  from config_path_cong [of s4 s] f4(1) c3 cd have "config_path s4 ''cache_dir'' = Inr cd" by simp
  from save_cache_post [OF this, of e] obtain s5
    where c: "save_cache e s4 = (Inr (), s5)"
      and cj: "cache_json s5 =
             (case write_json e (path_str e cd [''file_hashes.json'']) of
                WriteOk \<Rightarrow> Dumped (file_hashes s4)
              | OpenFails x \<Rightarrow> cache_json s4
              | DumpFails x \<Rightarrow> Truncated)"
      and cl: "(case write_json e (path_str e cd [''file_hashes.json'']) of
              WriteOk \<Rightarrow> log s5 = log s4
            | OpenFails x \<Rightarrow> log s5 = log s4 @ [(ERROR, SaveCacheFailed (str_exn x))]
            | DumpFails x \<Rightarrow> log s5 = log s4 @ [(ERROR, SaveCacheFailed (str_exn x))])"
      and f5: "config s5 = config s4" "file_hashes s5 = file_hashes s4"
        "build_history s5 = build_history s4" "is_building s5 = is_building s4"
        "stats s5 = stats s4" "history_json s5 = history_json s4"
    by blast
  have res: "build_finally e b s = (Inr (Some b1), s5)"
    unfolding build_finally_def Let_def
    using h c by (simp add: b1_def [symmetric] s2_def [symmetric] s3_def [symmetric])
  have sub: "set (log s4) \<subseteq> set (log s5)"
    using cl by (cases "write_json e (path_str e cd [''file_hashes.json''])") auto
  have hist_logged:
    "(case write_json e (path_str e ld [''build_history.json'']) of
        WriteOk \<Rightarrow> True
      | OpenFails x \<Rightarrow> (ERROR, SaveHistoryFailed (str_exn x)) \<in> set (log s5)
      | DumpFails x \<Rightarrow> (ERROR, SaveHistoryFailed (str_exn x)) \<in> set (log s5))"
    using hl sub by (cases "write_json e (path_str e ld [''build_history.json''])") auto
  have cache_logged:
    "(case write_json e (path_str e cd [''file_hashes.json'']) of
        WriteOk \<Rightarrow> True
      | OpenFails x \<Rightarrow> (ERROR, SaveCacheFailed (str_exn x)) \<in> set (log s5)
      | DumpFails x \<Rightarrow> (ERROR, SaveCacheFailed (str_exn x)) \<in> set (log s5))"
    using cl by (cases "write_json e (path_str e cd [''file_hashes.json''])") auto
  have st: "stats s5 = stats s2" "build_history s5 = deque_append (build_history s) b1"
    "file_hashes s5 = file_hashes s" "config s5 = config s" "\<not> is_building s5"
    "history_json s3 = history_json s" "cache_json s4 = cache_json s"
    "build_history s3 = build_history s5"
    by (simp_all add: f5 f4 s3_def us)
  have fh: "file_hashes s4 = file_hashes s" by (simp add: f4 s3_def us)
  have hj': "history_json s5 =
             (case write_json e (path_str e ld [''build_history.json'']) of
                WriteOk \<Rightarrow> Dumped (build_history s5)
              | OpenFails x \<Rightarrow> history_json s
              | DumpFails x \<Rightarrow> Truncated)"
    using hj st f5 by (cases "write_json e (path_str e ld [''build_history.json''])") simp_all
  have cj': "cache_json s5 =
             (case write_json e (path_str e cd [''file_hashes.json'']) of
                WriteOk \<Rightarrow> Dumped (file_hashes s)
              | OpenFails x \<Rightarrow> cache_json s
              | DumpFails x \<Rightarrow> Truncated)"
    using cj st fh by (cases "write_json e (path_str e cd [''file_hashes.json''])") simp_all
  have dur: "duration e b1 = float_sub e (clock_end e) (start_time b)" "success b1 = success b"
    by (simp_all add: b1_def duration_def)
  show ?thesis
    unfolding b1_def [symmetric]
    by (intro exI [of _ s5] conjI)
       (simp_all add: res st us dur hist_logged cache_logged hj' cj')
qed


text \<open>
  After the locked block, \<open>build\<close> runs the \<open>try\<close> block, the \<open>except\<close> clause if the
  block raised, and the \<open>finally\<close> clause on a record that the outcome of the compiler
  run determines; up to there only the log and \<open>PATH\<close> have changed.
\<close>

lemma build_unlocked_as_finally:
  "\<exists>b2 s2. build_unlocked e md cf s = build_finally e b2 s2 \<and> only_log_and_PATH s s2 \<and>
          start_time b2 = clock_start e \<and> mode b2 = md \<and>
          files_changed b2 = (case cf of None \<Rightarrow> [] | Some fs \<Rightarrow> fs) \<and>
          (case fst (run_compiler e md s) of
             Inl x \<Rightarrow> \<not> success b2 \<and> error_message b2 = str_exn x \<and> warnings b2 = None
           | Inr result \<Rightarrow>
               success b2 = (returncode result = 0) \<and>
               error_message b2 = (if returncode result = 0 then [] else stderr result) \<and>
               warnings b2 = (if stdout result = [] \<or> warning_lines e (stdout result) = [] then None
                              else Some (warning_lines e (stdout result))))"
proof -
  define b0 where
    "b0 = \<lparr>start_time = clock_start e, end_time = 0, success = False, mode = md,
            files_changed = (case cf of None \<Rightarrow> [] | Some fs \<Rightarrow> fs),
            output_size_js = 0, output_size_wasm = 0, error_message = [],
            warnings = None\<rparr>"
  obtain r s1 where rc: "run_compiler e md s = (r, s1)" by (cases "run_compiler e md s")
  have "\<exists>b2 s2. build_unlocked e md cf s = build_finally e b2 s2 \<and> only_log_and_PATH s s2 \<and>
          start_time b2 = clock_start e \<and> mode b2 = md \<and>
          files_changed b2 = (case cf of None \<Rightarrow> [] | Some fs \<Rightarrow> fs) \<and>
          (case r of
             Inl x \<Rightarrow> \<not> success b2 \<and> error_message b2 = str_exn x \<and> warnings b2 = None
           | Inr result \<Rightarrow>
               success b2 = (returncode result = 0) \<and>
               error_message b2 = (if returncode result = 0 then [] else stderr result) \<and>
               warnings b2 = (if stdout result = [] \<or> warning_lines e (stdout result) = [] then None
                              else Some (warning_lines e (stdout result))))"
  proof (cases r)
    case (Inl x)
    with rc have bt: "build_try e md b0 s = (Some x, b0, s1)" by (simp add: build_try_raises)
    from run_compiler_frame [of s e md] rc have "only_log_and_PATH s s1" by simp
    then have fr: "only_log_and_PATH s (logger ERROR (BuildError (str_exn x)) s1)"
      by (rule only_log_and_PATH_logger')
    have "build_unlocked e md cf s
            = build_finally e (b0\<lparr>success := False, error_message := str_exn x\<rparr>)
                (logger ERROR (BuildError (str_exn x)) s1)"
      using bt by (simp add: build_unlocked_def b0_def [symmetric] build_except_def)
    with fr Inl show ?thesis by (intro exI conjI) (assumption, simp_all add: b0_def)
  next
    case (Inr result)
    with rc have "run_compiler e md s = (Inr result, s1)" by simp
    from build_try_runs [OF this, of b0] obtain b1 s2
      where bt: "build_try e md b0 s = (None, b1, s2)"
        and b1: "success b1 = (returncode result = 0)"
          "error_message b1 = (if returncode result = 0 then error_message b0 else stderr result)"
          "warnings b1 = (if stdout result = [] \<or> warning_lines e (stdout result) = [] then warnings b0
                          else Some (warning_lines e (stdout result)))"
          "start_time b1 = start_time b0" "mode b1 = mode b0"
          "files_changed b1 = files_changed b0"
      by blast
    from build_try_frame [of s e md b0] bt have fr: "only_log_and_PATH s s2" by simp
    have "build_unlocked e md cf s = build_finally e b1 s2"
      using bt by (simp add: build_unlocked_def b0_def [symmetric])
    with fr Inr b1 show ?thesis by (intro exI conjI) (assumption, simp_all add: b0_def)
  qed
  with rc show ?thesis by simp
qed

text \<open>
  What a call of \<open>build\<close> that has taken the flag does, whatever the world: it returns a
  record and leaves the monitor finalized. The directories of the log and of the cache
  are configured in every monitor that \<open>__init__\<close> has returned.
\<close>

lemma build_unlocked_post:
  assumes ld: "config_path s ''logs_dir'' = Inr ld" and cd: "config_path s ''cache_dir'' = Inr cd"
  shows "\<exists>b s'. build_unlocked e md cf s = (Inr (Some b), s') \<and>
           start_time b = clock_start e \<and> end_time b = clock_end e \<and> mode b = md \<and>
           files_changed b = (case cf of None \<Rightarrow> [] | Some fs \<Rightarrow> fs) \<and>
           (case fst (run_compiler e md s) of
              Inl x \<Rightarrow> \<not> success b \<and> error_message b = str_exn x \<and> warnings b = None
            | Inr result \<Rightarrow>
                success b = (returncode result = 0) \<and>
                error_message b = (if returncode result = 0 then [] else stderr result) \<and>
                warnings b = (if stdout result = [] \<or> warning_lines e (stdout result) = [] then None
                              else Some (warning_lines e (stdout result)))) \<and>
           \<not> is_building s' \<and> config s' = config s \<and> file_hashes s' = file_hashes s \<and>
           build_history s' = deque_append (build_history s) b \<and>
           total_builds (stats s') = total_builds (stats s) + 1 \<and>
           successful_builds (stats s') = successful_builds (stats s) + (if success b then 1 else 0) \<and>
           failed_builds (stats s') = failed_builds (stats s) + (if success b then 0 else 1) \<and>
           total_build_time (stats s') = float_add e (total_build_time (stats s)) (duration e b) \<and>
           last_build (stats s') = Some (now_isoformat e) \<and>
           history_json s' =
             (case write_json e (path_str e ld [''build_history.json'']) of
                WriteOk \<Rightarrow> Dumped (build_history s')
              | OpenFails x \<Rightarrow> history_json s
              | DumpFails x \<Rightarrow> Truncated) \<and>
           cache_json s' =
             (case write_json e (path_str e cd [''file_hashes.json'']) of
                WriteOk \<Rightarrow> Dumped (file_hashes s)
              | OpenFails x \<Rightarrow> cache_json s
              | DumpFails x \<Rightarrow> Truncated) \<and>
           (case write_json e (path_str e ld [''build_history.json'']) of
              WriteOk \<Rightarrow> True
            | OpenFails x \<Rightarrow> (ERROR, SaveHistoryFailed (str_exn x)) \<in> set (log s')
            | DumpFails x \<Rightarrow> (ERROR, SaveHistoryFailed (str_exn x)) \<in> set (log s')) \<and>
           (case write_json e (path_str e cd [''file_hashes.json'']) of
              WriteOk \<Rightarrow> True
            | OpenFails x \<Rightarrow> (ERROR, SaveCacheFailed (str_exn x)) \<in> set (log s')
            | DumpFails x \<Rightarrow> (ERROR, SaveCacheFailed (str_exn x)) \<in> set (log s'))"
proof -
  from build_unlocked_as_finally [of e md cf s] obtain b2 s2
    where eq: "build_unlocked e md cf s = build_finally e b2 s2"
      and fr: "only_log_and_PATH s s2"
      and b2: "start_time b2 = clock_start e" "mode b2 = md"
        "files_changed b2 = (case cf of None \<Rightarrow> [] | Some fs \<Rightarrow> fs)"
      and out: "(case fst (run_compiler e md s) of
             Inl x \<Rightarrow> \<not> success b2 \<and> error_message b2 = str_exn x \<and> warnings b2 = None
           | Inr result \<Rightarrow>
               success b2 = (returncode result = 0) \<and>
               error_message b2 = (if returncode result = 0 then [] else stderr result) \<and>
               warnings b2 = (if stdout result = [] \<or> warning_lines e (stdout result) = [] then None
                              else Some (warning_lines e (stdout result))))"
    by blast
  from fr have same: "config s2 = config s" "file_hashes s2 = file_hashes s"
    "build_history s2 = build_history s" "stats s2 = stats s"
    "cache_json s2 = cache_json s" "history_json s2 = history_json s"
    by (simp_all add: only_log_and_PATH_def)
  from config_path_cong [OF same(1)] ld cd
  have "config_path s2 ''logs_dir'' = Inr ld" "config_path s2 ''cache_dir'' = Inr cd"
    by simp_all
  from build_finally_post [OF this, of e b2] obtain s'
    where fin: "build_finally e b2 s2 = (Inr (Some (b2\<lparr>end_time := clock_end e\<rparr>)), s')"
      and post: "\<not> is_building s'" "config s' = config s2" "file_hashes s' = file_hashes s2"
        "build_history s' = deque_append (build_history s2) (b2\<lparr>end_time := clock_end e\<rparr>)"
        "total_builds (stats s') = total_builds (stats s2) + 1"
        "successful_builds (stats s') = successful_builds (stats s2) + (if success b2 then 1 else 0)"
        "failed_builds (stats s') = failed_builds (stats s2) + (if success b2 then 0 else 1)"
        "total_build_time (stats s')
           = float_add e (total_build_time (stats s2)) (float_sub e (clock_end e) (start_time b2))"
        "last_build (stats s') = Some (now_isoformat e)"
        "history_json s' =
           (case write_json e (path_str e ld [''build_history.json'']) of
              WriteOk \<Rightarrow> Dumped (build_history s')
            | OpenFails x \<Rightarrow> history_json s2
            | DumpFails x \<Rightarrow> Truncated)"
        "cache_json s' =
           (case write_json e (path_str e cd [''file_hashes.json'']) of
              WriteOk \<Rightarrow> Dumped (file_hashes s2)
            | OpenFails x \<Rightarrow> cache_json s2
            | DumpFails x \<Rightarrow> Truncated)"
        "(case write_json e (path_str e ld [''build_history.json'']) of
            WriteOk \<Rightarrow> True
          | OpenFails x \<Rightarrow> (ERROR, SaveHistoryFailed (str_exn x)) \<in> set (log s')
          | DumpFails x \<Rightarrow> (ERROR, SaveHistoryFailed (str_exn x)) \<in> set (log s'))"
        "(case write_json e (path_str e cd [''file_hashes.json'']) of
            WriteOk \<Rightarrow> True
          | OpenFails x \<Rightarrow> (ERROR, SaveCacheFailed (str_exn x)) \<in> set (log s')
          | DumpFails x \<Rightarrow> (ERROR, SaveCacheFailed (str_exn x)) \<in> set (log s'))"
    by blast
  define b where "b = b2\<lparr>end_time := clock_end e\<rparr>"
  have outb: "(case fst (run_compiler e md s) of
              Inl x \<Rightarrow> \<not> success b \<and> error_message b = str_exn x \<and> warnings b = None
            | Inr result \<Rightarrow>
                success b = (returncode result = 0) \<and>
                error_message b = (if returncode result = 0 then [] else stderr result) \<and>
                warnings b = (if stdout result = [] \<or> warning_lines e (stdout result) = [] then None
                              else Some (warning_lines e (stdout result))))"
    using out by (cases "fst (run_compiler e md s)") (simp_all add: b_def)
  have bfields: "start_time b = clock_start e" "end_time b = clock_end e" "mode b = md"
    "files_changed b = (case cf of None \<Rightarrow> [] | Some fs \<Rightarrow> fs)" "success b = success b2"
    "duration e b = float_sub e (clock_end e) (start_time b2)"
    by (simp_all add: b_def b2 duration_def)
  have res: "build_unlocked e md cf s = (Inr (Some b), s')"
    by (simp add: eq fin b_def)
  note post' = post [unfolded same, folded b_def]
  show ?thesis
    by (intro exI [of _ b] exI [of _ s'] conjI)
       (simp_all add: res outb bfields post')
qed


lemma BuildMonitor_init_post:
  assumes "BuildMonitor_init e cfile pv = Inr s"
  shows "(\<exists>ld cd. config_path s ''logs_dir'' = Inr ld \<and> config_path s ''cache_dir'' = Inr cd) \<and>
         \<not> is_building s \<and> build_history s = [] \<and>
         total_builds (stats s) = 0 \<and> successful_builds (stats s) = 0 \<and>
         failed_builds (stats s) = 0"
proof -
  from assms obtain c l where lc: "load_config e cfile = (Inr c, l)"
    by (cases "load_config e cfile") (auto simp add: BuildMonitor_init_def split: sum.splits)
  define s0 where
    "s0 = \<lparr>config_file = cfile, config = c, file_hashes = JObj Map.empty,
            build_history = [], is_building = False,
            stats = \<lparr>total_builds = 0, successful_builds = 0, failed_builds = 0,
                     total_build_time = 0, last_build = None\<rparr>,
            environ_PATH = pv, cache_json = Unwritten,
            history_json = Unwritten, log = l\<rparr>"
  from assms lc have sd: "\<exists>u. setup_directories e s0 = Inr u"
    and "\<exists>u. load_cache e s0 = (Inr u, s)"
    by (auto simp add: BuildMonitor_init_def s0_def [symmetric] split: sum.splits prod.splits)
  then obtain u where ldc: "load_cache e s0 = (Inr u, s)" by blast
  from sd obtain ld cd where dirs0: "config_path s0 ''logs_dir'' = Inr ld"
    "config_path s0 ''cache_dir'' = Inr cd"
    by (auto simp add: setup_directories_def split: sum.splits)
  from ldc dirs0 have fr: "only_log_and_PATH (s0\<lparr>file_hashes := file_hashes s\<rparr>) s"
    by (auto simp add: load_cache_def Let_def logger_def only_log_and_PATH_def
          split: sum.splits if_splits)
  then have c: "config s = config s0" and rest: "\<not> is_building s" "build_history s = []"
    "stats s = stats s0"
    by (simp_all add: only_log_and_PATH_def s0_def)
  from config_path_cong [OF c] dirs0
  have "config_path s ''logs_dir'' = Inr ld" "config_path s ''cache_dir'' = Inr cd" by simp_all
  with rest show ?thesis by (simp add: s0_def)
qed

lemma has_file_changed_config: "config (snd (has_file_changed e p s)) = config s"
  by (cases "file_hashes s")
     (simp_all add: has_file_changed_def Let_def split: sum.splits)

lemma reachable_configured:
  assumes "reachable s"
  shows "\<exists>ld cd. config_path s ''logs_dir'' = Inr ld \<and> config_path s ''cache_dir'' = Inr cd"
  using assms
proof (induction rule: reachable.induct)
  case (constructed e cfile pv s)
  from BuildMonitor_init_post [OF this] show ?case by blast
next
  case (after_lock s entered s')
  then have "config s' = config s"
    by (auto simp add: build_lock_section_def logger_def split: if_splits)
  from config_path_cong [OF this] after_lock.IH show ?case by simp
next
  case (after_build s e md cf r s')
  then obtain ld cd where dirs: "config_path s ''logs_dir'' = Inr ld"
    "config_path s ''cache_dir'' = Inr cd" by blast
  from build_unlocked_post [OF dirs, of e md cf] after_build.hyps(2)
  have "config s' = config s" by auto
  from config_path_cong [OF this] dirs show ?case by simp
next
  case (after_changed s e p r s')
  with has_file_changed_config [of e p s] have "config s' = config s" by simp
  from config_path_cong [OF this] after_changed.IH show ?case by simp
qed

lemma build_entered:
  "\<not> is_building s \<Longrightarrow> build e md cf s = build_unlocked e md cf (s\<lparr>is_building := True\<rparr>)"
  by (simp add: build_def build_lock_section_def)

lemma build_skipped:
  "is_building s \<Longrightarrow> build e md cf s = (Inr None, logger WARNING BuildInProgress s)"
  by (simp add: build_def build_lock_section_def)

section \<open>Build orchestrator: the claims\<close>

lemma sample_reachable: "reachable sample_monitor"
  using sample_init by (rule reachable.constructed)








text \<open>
  C1. A call of \<open>build\<close> that finds the flag \<open>is_building\<close> set returns \<open>None\<close> without
  consulting the world; it adds a warning to the log and leaves the statistics, the
  history, the hash cache, the flag and the two files as they are. So when a second
  call arrives after a first call has taken the flag and before it has finished (the
  child process has not exited), the second call is skipped, the first call then
  completes as usual, and the two calls together append exactly one record to the
  history and count one build.
\<close>

theorem single_flight:
  assumes "reachable s" and "\<not> is_building s"
  shows "(is_building t \<longrightarrow>
            build e2 md2 cf2 t = (Inr None, logger WARNING BuildInProgress t) \<and>
            stats (logger WARNING BuildInProgress t) = stats t \<and>
            build_history (logger WARNING BuildInProgress t) = build_history t \<and>
            file_hashes (logger WARNING BuildInProgress t) = file_hashes t \<and>
            is_building (logger WARNING BuildInProgress t) = is_building t \<and>
            history_json (logger WARNING BuildInProgress t) = history_json t \<and>
            cache_json (logger WARNING BuildInProgress t) = cache_json t) \<and>
         (\<exists>s1 s2 b s3.
            build_lock_section s = (True, s1) \<and> is_building s1 \<and>
            build e1 md1 cf1 s = build_unlocked e1 md1 cf1 s1 \<and>
            build e2 md2 cf2 s1 = (Inr None, s2) \<and>
            stats s2 = stats s \<and> build_history s2 = build_history s \<and>
            file_hashes s2 = file_hashes s \<and> is_building s2 \<and>
            build_unlocked e1 md1 cf1 s2 = (Inr (Some b), s3) \<and>
            build_history s3 = deque_append (build_history s) b \<and>
            total_builds (stats s3) = total_builds (stats s) + 1 \<and>
            file_hashes s3 = file_hashes s \<and> \<not> is_building s3)"
proof (intro conjI impI)
  assume "is_building t"
  then show "build e2 md2 cf2 t = (Inr None, logger WARNING BuildInProgress t)"
    by (rule build_skipped)
next
  let ?s1 = "s\<lparr>is_building := True\<rparr>"
  let ?s2 = "logger WARNING BuildInProgress ?s1"
  have lock: "build_lock_section s = (True, ?s1)"
    using assms(2) by (simp add: build_lock_section_def)
  have first: "build e1 md1 cf1 s = build_unlocked e1 md1 cf1 ?s1"
    using assms(2) by (rule build_entered)
  have second: "build e2 md2 cf2 ?s1 = (Inr None, ?s2)"
    by (rule build_skipped) simp
  have same: "stats ?s2 = stats s" "build_history ?s2 = build_history s"
    "file_hashes ?s2 = file_hashes s" "is_building ?s2" "config ?s2 = config s"
    by (simp_all add: logger_def)
  from reachable_configured [OF assms(1)] obtain ld cd
    where "config_path s ''logs_dir'' = Inr ld" "config_path s ''cache_dir'' = Inr cd"
    by blast
  with config_path_cong [OF same(5)]
  have dirs: "config_path ?s2 ''logs_dir'' = Inr ld" "config_path ?s2 ''cache_dir'' = Inr cd"
    by simp_all
  from build_unlocked_post [OF dirs, of e1 md1 cf1] obtain b s3
    where "build_unlocked e1 md1 cf1 ?s2 = (Inr (Some b), s3)"
      "build_history s3 = deque_append (build_history ?s2) b"
      "total_builds (stats s3) = total_builds (stats ?s2) + 1"
      "file_hashes s3 = file_hashes ?s2" "\<not> is_building s3"
    by blast
  with lock first second same
  show "\<exists>s1 s2 b s3.
            build_lock_section s = (True, s1) \<and> is_building s1 \<and>
            build e1 md1 cf1 s = build_unlocked e1 md1 cf1 s1 \<and>
            build e2 md2 cf2 s1 = (Inr None, s2) \<and>
            stats s2 = stats s \<and> build_history s2 = build_history s \<and>
            file_hashes s2 = file_hashes s \<and> is_building s2 \<and>
            build_unlocked e1 md1 cf1 s2 = (Inr (Some b), s3) \<and>
            build_history s3 = deque_append (build_history s) b \<and>
            total_builds (stats s3) = total_builds (stats s) + 1 \<and>
            file_hashes s3 = file_hashes s \<and> \<not> is_building s3"
    by (intro exI [of _ ?s1] exI [of _ ?s2] exI [of _ b] exI [of _ s3]) simp
qed (simp_all add: logger_def)

text \<open>Two calls on the sample monitor, the second while the first holds the flag.\<close>

theorem single_flight_witness:
  "reachable sample_monitor \<and> \<not> is_building sample_monitor \<and>
   is_building (sample_monitor\<lparr>is_building := True\<rparr>) \<and>
   build sample_env ''release'' (Some [''wasm/game_engine.cpp''])
     (sample_monitor\<lparr>is_building := True\<rparr>)
   = (Inr None, logger WARNING BuildInProgress (sample_monitor\<lparr>is_building := True\<rparr>)) \<and>
   (\<exists>s1 s2 b s3.
      build_lock_section sample_monitor = (True, s1) \<and>
      build sample_env ''release'' (Some [''wasm/game_engine.cpp'']) s1 = (Inr None, s2) \<and>
      build_unlocked sample_env ''release'' None s2 = (Inr (Some b), s3) \<and>
      build_history s3 = [b] \<and> total_builds (stats s3) = 1 \<and> \<not> is_building s3)"
proof -
  have idle: "\<not> is_building sample_monitor" by (simp add: sample_monitor_def)
  have busy: "is_building (sample_monitor\<lparr>is_building := True\<rparr>)" by simp
  have start: "build_history sample_monitor = []" "total_builds (stats sample_monitor) = 0"
    by (simp_all add: sample_monitor_def)
  from single_flight [OF sample_reachable idle,
      of "sample_monitor\<lparr>is_building := True\<rparr>" sample_env "''release''"
         "Some [''wasm/game_engine.cpp'']" sample_env "''release''" None]
  show ?thesis
    using sample_reachable idle busy start by (auto simp add: deque_append_def)
qed













text \<open>The string functions of the warning scan: \<open>contains\<close> is the search for a
  substring, and \<open>split_char\<close> cuts a string at every separator and nowhere else.\<close>

lemma take_length_eq_iff: "(take (length sub) s = sub) = (\<exists>post. s = sub @ post)"
  by (metis append_eq_conv_conj append_take_drop_id)

lemma contains_iff: "contains sub s = (\<exists>pre post. s = pre @ sub @ post)"
proof (induction s)
  case Nil
  show ?case by auto
next
  case (Cons c cs)
  have "(\<exists>pre post. c # cs = pre @ sub @ post)
          = ((\<exists>post. c # cs = sub @ post) \<or> (\<exists>pre post. cs = pre @ sub @ post))"
  proof
    assume "\<exists>pre post. c # cs = pre @ sub @ post"
    then obtain pre post where eq: "c # cs = pre @ sub @ post" by blast
    show "(\<exists>post. c # cs = sub @ post) \<or> (\<exists>pre post. cs = pre @ sub @ post)"
    proof (cases pre)
      case Nil
      with eq show ?thesis by auto
    next
      case (Cons d pre')
      with eq have "cs = pre' @ sub @ post" by simp
      then show ?thesis by blast
    qed
  next
    assume "(\<exists>post. c # cs = sub @ post) \<or> (\<exists>pre post. cs = pre @ sub @ post)"
    then show "\<exists>pre post. c # cs = pre @ sub @ post"
    proof
      assume "\<exists>post. c # cs = sub @ post"
      then obtain post where "c # cs = [] @ sub @ post" by auto
      then show ?thesis by blast
    next
      assume "\<exists>pre post. cs = pre @ sub @ post"
      then obtain pre post where "c # cs = (c # pre) @ sub @ post" by auto
      then show ?thesis by blast
    qed
  qed
  with Cons.IH take_length_eq_iff [of sub "c # cs"] show ?case by simp
qed

lemma split_char_not_Nil: "split_char sep s \<noteq> []"
  by (induction s) (auto split: list.splits)

lemma split_char_no_sep: "l \<in> set (split_char sep s) \<Longrightarrow> sep \<notin> set l"
proof (induction s arbitrary: l)
  case Nil
  then show ?case by simp
next
  case (Cons c cs)
  show ?case
  proof (cases "c = sep")
    case True
    with Cons show ?thesis by auto
  next
    case False
    obtain w ws where ws: "split_char sep cs = w # ws"
      using split_char_not_Nil [of sep cs] by (cases "split_char sep cs") auto
    with Cons.prems False have "l = c # w \<or> l \<in> set ws" by simp
    with Cons.IH ws False show ?thesis by auto
  qed
qed

lemma split_char_join:
  "concat (map (\<lambda>l. l @ [sep]) (butlast (split_char sep s))) @ last (split_char sep s) = s"
proof (induction s)
  case Nil
  show ?case by simp
next
  case (Cons c cs)
  obtain w ws where ws: "split_char sep cs = w # ws"
    using split_char_not_Nil [of sep cs] by (cases "split_char sep cs") auto
  show ?case
  proof (cases "c = sep")
    case True
    with Cons.IH ws show ?thesis by simp
  next
    case False
    with Cons.IH ws show ?thesis by (cases ws) simp_all
  qed
qed





section \<open>Statistics aggregator\<close>

text \<open>Each call of \<open>build\<close> on an idle monitor returns a record and counts it once.\<close>

lemma build_counts_once:
  assumes "\<not> is_building s" and "config_path s ''logs_dir'' = Inr ld"
    and "config_path s ''cache_dir'' = Inr cd"
  shows "\<exists>b s'. build e md cf s = (Inr (Some b), s') \<and> \<not> is_building s' \<and>
           config s' = config s \<and>
           total_builds (stats s') = total_builds (stats s) + 1 \<and>
           successful_builds (stats s') = successful_builds (stats s) + (if success b then 1 else 0) \<and>
           failed_builds (stats s') = failed_builds (stats s) + (if success b then 0 else 1)"
proof -
  let ?t = "s\<lparr>is_building := True\<rparr>"
  have "config ?t = config s" by simp
  from config_path_cong [OF this] assms(2,3)
  have dirs: "config_path ?t ''logs_dir'' = Inr ld" "config_path ?t ''cache_dir'' = Inr cd"
    by simp_all
  from build_unlocked_post [OF dirs, of e md cf] obtain b s'
    where "build_unlocked e md cf ?t = (Inr (Some b), s')" "\<not> is_building s'"
      "config s' = config ?t"
      "total_builds (stats s') = total_builds (stats ?t) + 1"
      "successful_builds (stats s') = successful_builds (stats ?t) + (if success b then 1 else 0)"
      "failed_builds (stats s') = failed_builds (stats ?t) + (if success b then 0 else 1)"
    by blast
  with assms(1) show ?thesis by (simp add: build_entered)
qed

lemma build_seq_counts:
  assumes "\<not> is_building s" and "config_path s ''logs_dir'' = Inr ld"
    and "config_path s ''cache_dir'' = Inr cd"
  shows "\<exists>bs. fst (build_seq calls s) = map (\<lambda>b. Inr (Some b)) bs \<and>
           length bs = length calls \<and>
           total_builds (stats (snd (build_seq calls s)))
             = total_builds (stats s) + int (length calls) \<and>
           successful_builds (stats (snd (build_seq calls s)))
             = successful_builds (stats s) + int (length (filter success bs)) \<and>
           failed_builds (stats (snd (build_seq calls s)))
             = failed_builds (stats s) + int (length (filter (\<lambda>b. \<not> success b) bs))"
  using assms
proof (induction calls arbitrary: s)
  case Nil
  show ?case by simp
next
  case (Cons call calls)
  obtain e md cf where call: "call = (e, md, cf)" by (cases call)
  from build_counts_once [OF Cons.prems, of e md cf] obtain b s1
    where step: "build e md cf s = (Inr (Some b), s1)" and idle: "\<not> is_building s1"
      and cfg: "config s1 = config s"
      and counts: "total_builds (stats s1) = total_builds (stats s) + 1"
        "successful_builds (stats s1) = successful_builds (stats s) + (if success b then 1 else 0)"
        "failed_builds (stats s1) = failed_builds (stats s) + (if success b then 0 else 1)"
    by blast
  from config_path_cong [OF cfg] Cons.prems(2,3)
  have dirs: "config_path s1 ''logs_dir'' = Inr ld" "config_path s1 ''cache_dir'' = Inr cd"
    by simp_all
  from Cons.IH [OF idle dirs] obtain bs
    where rest: "fst (build_seq calls s1) = map (\<lambda>b. Inr (Some b)) bs"
      "length bs = length calls"
      "total_builds (stats (snd (build_seq calls s1)))
         = total_builds (stats s1) + int (length calls)"
      "successful_builds (stats (snd (build_seq calls s1)))
         = successful_builds (stats s1) + int (length (filter success bs))"
      "failed_builds (stats (snd (build_seq calls s1)))
         = failed_builds (stats s1) + int (length (filter (\<lambda>b. \<not> success b) bs))"
    by blast
  have unfold: "build_seq (call # calls) s
                  = (Inr (Some b) # fst (build_seq calls s1), snd (build_seq calls s1))"
    using step by (simp add: call split: prod.splits)
  show ?case
    by (rule exI [of _ "b # bs"]) (simp add: unfold rest counts)
qed

lemma build_seq_take:
  "fst (build_seq (take k calls) s) = take k (fst (build_seq calls s))"
proof (induction calls arbitrary: k s)
  case Nil
  show ?case by simp
next
  case (Cons call calls)
  obtain e md cf where call: "call = (e, md, cf)" by (cases call)
  show ?case
  proof (cases k)
    case 0
    then show ?thesis by simp
  next
    case (Suc j)
    from Cons.IH [of j "snd (build e md cf s)"] Suc show ?thesis
      by (simp add: call case_prod_unfold)
  qed
qed

text \<open>
  C3. Starting from the monitor that \<open>__init__\<close> returns, after any sequence of \<open>N\<close>
  calls of \<open>build\<close>, each call has returned a record, \<open>total_builds\<close> is \<open>N\<close>,
  \<open>successful_builds\<close> is the number \<open>S\<close> of records with \<open>success\<close> true,
  \<open>failed_builds\<close> is the number of the others, and the two add up to
  \<open>total_builds\<close>. The same holds after every prefix of the sequence, so each record
  is counted exactly once, by the call that returns it, and no counter ever decreases.
\<close>

theorem running_stats_invariant:
  assumes "BuildMonitor_init e0 cfile pv = Inr s0" and "build_seq calls s0 = (rs, s)"
  shows "\<exists>bs. rs = map (\<lambda>b. Inr (Some b)) bs \<and> length bs = length calls \<and>
           total_builds (stats s) = int (length calls) \<and>
           successful_builds (stats s) = int (length (filter success bs)) \<and>
           failed_builds (stats s) = int (length (filter (\<lambda>b. \<not> success b) bs)) \<and>
           successful_builds (stats s) + failed_builds (stats s) = total_builds (stats s) \<and>
           (\<forall>k\<le>length calls.
              total_builds (stats (snd (build_seq (take k calls) s0))) = int k \<and>
              successful_builds (stats (snd (build_seq (take k calls) s0)))
                = int (length (filter success (take k bs))) \<and>
              failed_builds (stats (snd (build_seq (take k calls) s0)))
                = int (length (filter (\<lambda>b. \<not> success b) (take k bs))))"
proof -
  from BuildMonitor_init_post [OF assms(1)] obtain ld cd
    where dirs: "config_path s0 ''logs_dir'' = Inr ld" "config_path s0 ''cache_dir'' = Inr cd"
      and idle: "\<not> is_building s0"
      and zero: "total_builds (stats s0) = 0" "successful_builds (stats s0) = 0"
        "failed_builds (stats s0) = 0"
    by blast
  from build_seq_counts [OF idle dirs, of calls] assms(2) obtain bs
    where rs: "rs = map (\<lambda>b. Inr (Some b)) bs" and len: "length bs = length calls"
      and total: "total_builds (stats s) = int (length calls)"
      and succ: "successful_builds (stats s) = int (length (filter success bs))"
      and fail: "failed_builds (stats s) = int (length (filter (\<lambda>b. \<not> success b) bs))"
    by (auto simp add: zero)
  have "length (filter success bs) + length (filter (\<lambda>b. \<not> success b) bs) = length bs"
    by (rule sum_length_filter_compl)
  with len total succ fail
  have sum: "successful_builds (stats s) + failed_builds (stats s) = total_builds (stats s)"
    by simp
  have prefix: "total_builds (stats (snd (build_seq (take k calls) s0))) = int k \<and>
              successful_builds (stats (snd (build_seq (take k calls) s0)))
                = int (length (filter success (take k bs))) \<and>
              failed_builds (stats (snd (build_seq (take k calls) s0)))
                = int (length (filter (\<lambda>b. \<not> success b) (take k bs)))"
    if k: "k \<le> length calls" for k
  proof -
    from build_seq_counts [OF idle dirs, of "take k calls"] obtain bk
      where rk: "fst (build_seq (take k calls) s0) = map (\<lambda>b. Inr (Some b)) bk"
        and tk: "total_builds (stats (snd (build_seq (take k calls) s0)))
                   = int (length (take k calls))"
        and sk: "successful_builds (stats (snd (build_seq (take k calls) s0)))
                   = int (length (filter success bk))"
        and fk: "failed_builds (stats (snd (build_seq (take k calls) s0)))
                   = int (length (filter (\<lambda>b. \<not> success b) bk))"
      by (auto simp add: zero)
    from build_seq_take [of k calls s0] assms(2) rs rk
    have "(map (\<lambda>b. Inr (Some b)) bk :: (exn + build_stats option) list)
            = map (\<lambda>b. Inr (Some b)) (take k bs)"
      by (simp add: take_map)
    moreover have "inj (\<lambda>b::build_stats. (Inr (Some b) :: exn + build_stats option))"
      by (rule injI) simp
    ultimately have "bk = take k bs" by (simp add: inj_map_eq_map)
    with tk sk fk k show ?thesis by simp
  qed
  from rs len total succ fail sum prefix show ?thesis by blast
qed

text \<open>Two builds on the sample monitor, the first without and the second with a
  compiler.\<close>

theorem running_stats_invariant_witness:
  "\<exists>bs. fst (build_seq [(sample_env, ''release'', None),
                         (sample_env_emcc, ''release'', Some [''wasm/game_engine.cpp''])]
               sample_monitor) = map (\<lambda>b. Inr (Some b)) bs \<and>
        length bs = 2 \<and>
        total_builds (stats (snd (build_seq [(sample_env, ''release'', None),
                         (sample_env_emcc, ''release'', Some [''wasm/game_engine.cpp''])]
               sample_monitor))) = 2 \<and>
        successful_builds (stats (snd (build_seq [(sample_env, ''release'', None),
                         (sample_env_emcc, ''release'', Some [''wasm/game_engine.cpp''])]
               sample_monitor)))
        + failed_builds (stats (snd (build_seq [(sample_env, ''release'', None),
                         (sample_env_emcc, ''release'', Some [''wasm/game_engine.cpp''])]
               sample_monitor))) = 2"
proof -
  let ?calls = "[(sample_env, ''release'', None),
                 (sample_env_emcc, ''release'', Some [''wasm/game_engine.cpp''])]"
  have seq: "build_seq ?calls sample_monitor
               = (fst (build_seq ?calls sample_monitor), snd (build_seq ?calls sample_monitor))"
    by (rule prod.collapse [symmetric])
  from running_stats_invariant [OF sample_init seq] obtain bs
    where "fst (build_seq ?calls sample_monitor) = map (\<lambda>b. Inr (Some b)) bs"
      "length bs = length ?calls"
      "total_builds (stats (snd (build_seq ?calls sample_monitor))) = int (length ?calls)"
      "successful_builds (stats (snd (build_seq ?calls sample_monitor)))
       + failed_builds (stats (snd (build_seq ?calls sample_monitor)))
       = total_builds (stats (snd (build_seq ?calls sample_monitor)))"
    by blast
  then show ?thesis by (intro exI [of _ bs]) simp
qed

section \<open>Event-driven monitoring\<close>

text \<open>
  The two ways a qualifying event goes through \<open>on_modified\<close>. When more than the
  debounce time has passed since the previous event, the handler starts a build at once,
  with the paths pending so far and the path of this event, and clears the pending set.
  Otherwise it only adds the path to the pending set. Both record the time of the event.
\<close>

lemma on_modified_fires:
  assumes "\<not> is_directory ev" and "endswith (src_path ev) [''.cpp'', ''.h'', ''.hpp'']"
    and "debounce_time h < float_sub e now (last_event_time h)"
    and "\<not> is_building s"
    and "config_path s ''logs_dir'' = Inr ld" and "config_path s ''cache_dir'' = Inr cd"
  shows "\<exists>b s'. on_modified e now ev (h, s)
                   = (Inr (), h\<lparr>pending_changes := [], last_event_time := now\<rparr>, s') \<and>
                 files_changed b = List.insert (src_path ev) (pending_changes h) \<and>
                 build_history s' = deque_append (build_history s) b"
proof -
  let ?ps = "List.insert (src_path ev) (pending_changes h)"
  let ?s1 = "logger INFO (ChangesDetected (length ?ps)) s"
  let ?t = "?s1\<lparr>is_building := True\<rparr>"
  have ne: "?ps \<noteq> []" by (auto simp add: List.insert_def)
  have c: "config ?t = config s" and idle: "\<not> is_building ?s1"
    using assms(4) by (simp_all add: logger_def)
  from config_path_cong [OF c] assms(5,6)
  have dirs: "config_path ?t ''logs_dir'' = Inr ld" "config_path ?t ''cache_dir'' = Inr cd"
    by simp_all
  from build_unlocked_post [OF dirs, of e "build_mode h" "Some ?ps"] obtain b s'
    where run: "build_unlocked e (build_mode h) (Some ?ps) ?t = (Inr (Some b), s')"
      and files: "files_changed b = ?ps"
      and hist: "build_history s' = deque_append (build_history ?t) b"
    by auto
  from run idle have "build e (build_mode h) (Some ?ps) ?s1 = (Inr (Some b), s')"
    by (simp add: build_entered)
  with assms(1-3) ne
  have "on_modified e now ev (h, s)
          = (Inr (), h\<lparr>pending_changes := [], last_event_time := now\<rparr>, s')"
    by (simp add: on_modified_def Let_def)
  moreover have "build_history ?t = build_history s" by (simp add: logger_def)
  ultimately show ?thesis using files hist by auto
qed

lemma on_modified_waits:
  assumes "\<not> is_directory ev" and "endswith (src_path ev) [''.cpp'', ''.h'', ''.hpp'']"
    and "\<not> debounce_time h < float_sub e now (last_event_time h)"
  shows "on_modified e now ev (h, s)
           = (Inr (), h\<lparr>pending_changes := List.insert (src_path ev) (pending_changes h),
                          last_event_time := now\<rparr>, s)"
  using assms by (simp add: on_modified_def Let_def)

lemma sample_handler_init:
  "WASMEventHandler_init sample_env sample_monitor ''release'' = Inr sample_handler"
  by (simp add: WASMEventHandler_init_def top_key_def sample_monitor_def get_default_config_def
        sample_env_def sample_handler_def)

text \<open>
  C9 (the code at a burst of two events). The claim is that a burst of events less than
  the debounce time apart gives one call of \<open>build\<close> carrying every file of the burst,
  as the comment in \<open>on_modified\<close> has it (wait for a quiet period before building).
  The code does otherwise. On a fresh handler with the default debounce time of one
  second, \<open>wasm/a.cpp\<close> is modified at time 100 and \<open>wasm/b.cpp\<close> half a second later.
  The first event starts a build at once, with \<open>wasm/a.cpp\<close> alone; the second event
  starts none and leaves \<open>wasm/b.cpp\<close> pending, to be built only if some later event
  arrives after a quiet period.
\<close>

theorem burst_is_built_at_its_first_event:
  "\<exists>b s1.
     on_modified sample_env 100 \<lparr>is_directory = False, src_path = ''wasm/a.cpp''\<rparr>
       (sample_handler, sample_monitor)
     = (Inr (), sample_handler\<lparr>last_event_time := 100\<rparr>, s1) \<and>
     build_history s1 = [b] \<and> files_changed b = [''wasm/a.cpp''] \<and>
     on_modified sample_env (201 / 2) \<lparr>is_directory = False, src_path = ''wasm/b.cpp''\<rparr>
       (sample_handler\<lparr>last_event_time := 100\<rparr>, s1)
     = (Inr (), sample_handler\<lparr>pending_changes := [''wasm/b.cpp''],
                                last_event_time := 201 / 2\<rparr>, s1)"
proof -
  let ?a = "\<lparr>is_directory = False, src_path = ''wasm/a.cpp''\<rparr>"
  let ?b = "\<lparr>is_directory = False, src_path = ''wasm/b.cpp''\<rparr>"
  let ?h1 = "sample_handler\<lparr>last_event_time := 100\<rparr>"
  have cfg: "config sample_monitor = get_default_config" by (simp add: sample_monitor_def)
  note dirs = config_path_default [OF cfg]
  have idle: "\<not> is_building sample_monitor" by (simp add: sample_monitor_def)
  have quiet: "debounce_time sample_handler
                 < float_sub sample_env 100 (last_event_time sample_handler)"
    by (simp add: sample_handler_def sample_env_def)
  have a: "\<not> is_directory ?a" "endswith (src_path ?a) [''.cpp'', ''.h'', ''.hpp'']"
    by (simp_all add: endswith_def)
  from on_modified_fires [OF a quiet idle, of "''logs''" "''.build-cache''"] dirs
  obtain b s1
    where first: "on_modified sample_env 100 ?a (sample_handler, sample_monitor)
                    = (Inr (), ?h1, s1)"
      and files: "files_changed b = [''wasm/a.cpp'']"
      and hist: "build_history s1 = [b]"
    by (auto simp add: sample_handler_def sample_monitor_def deque_append_def)
  have busy: "\<not> debounce_time ?h1 < float_sub sample_env (201 / 2) (last_event_time ?h1)"
    by (simp add: sample_handler_def sample_env_def)
  have b: "\<not> is_directory ?b" "endswith (src_path ?b) [''.cpp'', ''.h'', ''.hpp'']"
    by (simp_all add: endswith_def)
  from on_modified_waits [OF b busy, of s1]
  have second: "on_modified sample_env (201 / 2) ?b (?h1, s1)
          = (Inr (), sample_handler\<lparr>pending_changes := [''wasm/b.cpp''],
                                     last_event_time := 201 / 2\<rparr>, s1)"
    by (simp add: sample_handler_def)
  from first hist files second show ?thesis by blast
qed

end
